theory Spec2Isabelle
  imports Main "HOL-Library.AList"
begin

section \<open>JavaScript dates\<close>

text \<open>
  A JavaScript \<^verbatim>\<open>Date\<close> is its time value: the milliseconds since the epoch, an
  integer. The scheduler reads and writes dates through \<^verbatim>\<open>getMinutes/setMinutes\<close>,
  \<^verbatim>\<open>getDate/setDate\<close> and \<^verbatim>\<open>getMonth/setMonth\<close>; these builtins are modelled after the
  abstract operations of ECMA-262 (Day, YearFromTime, MonthFromTime, DateFromTime, MakeTime,
  MakeDay, MakeDate, LocalTime, UTC). The range check TimeClip is left out: the dates of
  the scheduler are near the current time.
\<close>

type_synonym Timestamp = int

definition msPerDay :: int where "msPerDay = 86400000"
definition msPerHour :: int where "msPerHour = 3600000"
definition msPerMinute :: int where "msPerMinute = 60000"
definition msPerSecond :: int where "msPerSecond = 1000"

definition Day :: "int \<Rightarrow> int" where "Day t = t div msPerDay"
definition TimeWithinDay :: "int \<Rightarrow> int" where "TimeWithinDay t = t mod msPerDay"

definition DaysInYear :: "int \<Rightarrow> int" where
  "DaysInYear y =
     (if y mod 4 \<noteq> 0 then 365
      else if y mod 100 \<noteq> 0 then 366
      else if y mod 400 \<noteq> 0 then 365
      else 366)"

definition DayFromYear :: "int \<Rightarrow> int" where
  "DayFromYear y =
     365 * (y - 1970) + (y - 1969) div 4 - (y - 1901) div 100 + (y - 1601) div 400"

text \<open>
  YearFromTime is "the largest integer \<open>y\<close> such that TimeFromYear(y) \<le> t". It is
  computed by a search upwards from a year that starts no later than the day.
\<close>

function year_search :: "int \<Rightarrow> int \<Rightarrow> int" where
  "year_search y d = (if DayFromYear (y + 1) \<le> d then year_search (y + 1) d else y)"
  by pat_completeness auto

lemma div_step:
  fixes z n :: int
  assumes "0 < n"
  shows "(z + 1) div n = z div n + (if (z + 1) mod n = 0 then 1 else 0)"
proof -
  define q where "q = z div n"
  define r where "r = z mod n"
  have z: "z = n * q + r" and r0: "0 \<le> r" and rn: "r < n"
    using assms by (simp_all add: q_def r_def)
  show ?thesis
  proof (cases "r + 1 = n")
    case True
    have e: "z + 1 = (q + 1) * n" using z True by (simp add: algebra_simps)
    have "(z + 1) div n = q + 1" and "(z + 1) mod n = 0"
      using assms unfolding e by simp_all
    then show ?thesis by (simp add: q_def)
  next
    case False
    have e: "z + 1 = n * q + (r + 1)" using z by simp
    have b: "0 \<le> r + 1" "r + 1 < n" using r0 rn False by simp_all
    have "(z + 1) div n = q" using int_div_pos_eq [OF e b] .
    moreover have "(z + 1) mod n = r + 1" using int_mod_pos_eq [OF e b] .
    ultimately show ?thesis using r0 by (simp add: q_def)
  qed
qed

lemma mod_shift: "(k::int) mod n = 0 \<Longrightarrow> (y - k) mod n = y mod n"
  by (metis diff_zero mod_diff_right_eq)

lemma mod_dvd_0: "(m::int) dvd n \<Longrightarrow> y mod n = 0 \<Longrightarrow> y mod m = 0"
  by (meson dvd_trans mod_0_imp_dvd dvd_imp_mod_0)

lemma DayFromYear_Suc: "DayFromYear (y + 1) = DayFromYear y + DaysInYear y"
proof -
  have a: "(y + 1 - 1969) div 4 = (y - 1969) div 4 + (if y mod 4 = 0 then 1 else 0)"
    using div_step [of 4 "y - 1969"] mod_shift [of 1968 4 y] by (simp add: algebra_simps)
  have b: "(y + 1 - 1901) div 100 = (y - 1901) div 100 + (if y mod 100 = 0 then 1 else 0)"
    using div_step [of 100 "y - 1901"] mod_shift [of 1900 100 y] by (simp add: algebra_simps)
  have c: "(y + 1 - 1601) div 400 = (y - 1601) div 400 + (if y mod 400 = 0 then 1 else 0)"
    using div_step [of 400 "y - 1601"] mod_shift [of 1600 400 y] by (simp add: algebra_simps)
  have d: "y mod 100 = 0 \<Longrightarrow> y mod 4 = 0" by (rule mod_dvd_0 [of 4 100]) simp_all
  have e: "y mod 400 = 0 \<Longrightarrow> y mod 100 = 0" by (rule mod_dvd_0 [of 100 400]) simp_all
  show ?thesis
    unfolding DayFromYear_def DaysInYear_def a b c using d e by auto
qed

lemma DaysInYear_cases: "DaysInYear y = 365 \<or> DaysInYear y = 366"
  by (simp add: DaysInYear_def)

termination year_search
proof (relation "measure (\<lambda>(y, d). nat (d + 1 - DayFromYear (y + 1)))")
  show "wf (measure (\<lambda>(y, d). nat (d + 1 - DayFromYear (y + 1))))" by simp
next
  fix y d :: int
  assume h: "DayFromYear (y + 1) \<le> d"
  have "DayFromYear (y + 1 + 1) = DayFromYear (y + 1) + DaysInYear (y + 1)"
    by (rule DayFromYear_Suc)
  with DaysInYear_cases [of "y + 1"] h
  show "((y + 1, d), (y, d)) \<in> measure (\<lambda>(y, d). nat (d + 1 - DayFromYear (y + 1)))"
    by auto
qed

definition YearFromTime :: "int \<Rightarrow> int" where
  "YearFromTime t =
     (let d = Day t
      in year_search (1970 + (if 0 \<le> d then d div 366 else d div 365)) d)"

definition DayWithinYear :: "int \<Rightarrow> int" where
  "DayWithinYear t = Day t - DayFromYear (YearFromTime t)"

definition InLeapYear :: "int \<Rightarrow> int" where
  "InLeapYear t = (if DaysInYear (YearFromTime t) = 365 then 0 else 1)"

text \<open>The month table of MonthFromTime, on the day within the year and the leap flag.\<close>

definition MonthOfDay :: "int \<Rightarrow> int \<Rightarrow> int" where
  "MonthOfDay d L =
     (if d < 31 then 0
      else if d < 59 + L then 1
      else if d < 90 + L then 2
      else if d < 120 + L then 3
      else if d < 151 + L then 4
      else if d < 181 + L then 5
      else if d < 212 + L then 6
      else if d < 243 + L then 7
      else if d < 273 + L then 8
      else if d < 304 + L then 9
      else if d < 334 + L then 10
      else 11)"

definition MonthFromTime :: "int \<Rightarrow> int" where
  "MonthFromTime t = MonthOfDay (DayWithinYear t) (InLeapYear t)"

text \<open>The day within the year on which month \<open>mn\<close> (0 to 11) starts.\<close>

definition MonthStart :: "int \<Rightarrow> int \<Rightarrow> int" where
  "MonthStart mn L =
     (if mn = 0 then 0
      else if mn = 1 then 31
      else if mn = 2 then 59 + L
      else if mn = 3 then 90 + L
      else if mn = 4 then 120 + L
      else if mn = 5 then 151 + L
      else if mn = 6 then 181 + L
      else if mn = 7 then 212 + L
      else if mn = 8 then 243 + L
      else if mn = 9 then 273 + L
      else if mn = 10 then 304 + L
      else 334 + L)"

text \<open>
  DateFromTime: the table of ECMA-262 (\<open>d + 1\<close>, \<open>d - 30\<close>, \<open>d - 58 - L\<close>, ...) is
  the day within the year minus the start of its month, plus one.
\<close>

definition DateFromTime :: "int \<Rightarrow> int" where
  "DateFromTime t =
     DayWithinYear t - MonthStart (MonthFromTime t) (InLeapYear t) + 1"

definition HourFromTime :: "int \<Rightarrow> int" where
  "HourFromTime t = (t div msPerHour) mod 24"

definition MinFromTime :: "int \<Rightarrow> int" where
  "MinFromTime t = (t div msPerMinute) mod 60"

definition SecFromTime :: "int \<Rightarrow> int" where
  "SecFromTime t = (t div msPerSecond) mod 60"

definition msFromTime :: "int \<Rightarrow> int" where
  "msFromTime t = t mod msPerSecond"

definition MakeTime :: "int \<Rightarrow> int \<Rightarrow> int \<Rightarrow> int \<Rightarrow> int" where
  "MakeTime hour minute sec ms =
     hour * msPerHour + minute * msPerMinute + sec * msPerSecond + ms"

text \<open>
  MakeDay carries a month outside 0..11 into the year, finds the first day of that month
  and adds \<open>date - 1\<close> days, whatever \<open>date\<close> is: a date past the end of the month runs
  on into the next month.
\<close>

definition MakeDay :: "int \<Rightarrow> int \<Rightarrow> int \<Rightarrow> int" where
  "MakeDay year month date =
     (let ym = year + month div 12;
          mn = month mod 12;
          L = (if DaysInYear ym = 365 then 0 else 1)
      in DayFromYear ym + MonthStart mn L + date - 1)"

definition MakeDate :: "int \<Rightarrow> int \<Rightarrow> int" where
  "MakeDate day time = day * msPerDay + time"

text \<open>
  Local time, after ECMA-262: \<open>LocalTime(t) = t + LocalTZA(t, true)\<close>, the offset of the
  host zone in force at the time \<open>t\<close>, and \<open>UTC(t) = t - LocalTZA(t, false)\<close>, the offset
  that the zone gives the local date-time \<open>t\<close>; a local time that a transition repeats or
  skips has the offset from before the transition. The host zone is a parameter: its two
  offset functions.
\<close>

record Zone =
  offset_at :: "Timestamp \<Rightarrow> int"
  offset_of_local :: "int \<Rightarrow> int"

definition LocalTime :: "Zone \<Rightarrow> Timestamp \<Rightarrow> int" where
  "LocalTime z t = t + offset_at z t"

definition UTC :: "Zone \<Rightarrow> int \<Rightarrow> Timestamp" where
  "UTC z t = t - offset_of_local z t"

definition getMinutes :: "Zone \<Rightarrow> Timestamp \<Rightarrow> int" where
  "getMinutes z t = MinFromTime (LocalTime z t)"

definition getDate :: "Zone \<Rightarrow> Timestamp \<Rightarrow> int" where
  "getDate z t = DateFromTime (LocalTime z t)"

definition getMonth :: "Zone \<Rightarrow> Timestamp \<Rightarrow> int" where
  "getMonth z t = MonthFromTime (LocalTime z t)"

definition getFullYear :: "Zone \<Rightarrow> Timestamp \<Rightarrow> int" where
  "getFullYear z t = YearFromTime (LocalTime z t)"

definition setMinutes :: "Zone \<Rightarrow> Timestamp \<Rightarrow> int \<Rightarrow> Timestamp" where
  "setMinutes z t m =
     (let lt = LocalTime z t;
          date = MakeDate (Day lt) (MakeTime (HourFromTime lt) m (SecFromTime lt) (msFromTime lt))
      in UTC z date)"

definition setDate :: "Zone \<Rightarrow> Timestamp \<Rightarrow> int \<Rightarrow> Timestamp" where
  "setDate z t dt =
     (let lt = LocalTime z t;
          newDate = MakeDate (MakeDay (YearFromTime lt) (MonthFromTime lt) dt) (TimeWithinDay lt)
      in UTC z newDate)"

definition setMonth :: "Zone \<Rightarrow> Timestamp \<Rightarrow> int \<Rightarrow> Timestamp" where
  "setMonth z t m =
     (let lt = LocalTime z t;
          newDate = MakeDate (MakeDay (YearFromTime lt) m (DateFromTime lt)) (TimeWithinDay lt)
      in UTC z newDate)"

text \<open>Two zones: one with a fixed offset, and US Eastern time by its rules of 2025
  (daylight-saving time from 9 March, 07:00 UTC, to 2 November, 06:00 UTC).\<close>

definition fixed_zone :: "int \<Rightarrow> Zone" where
  "fixed_zone tza = \<lparr>offset_at = (\<lambda>t. tza), offset_of_local = (\<lambda>t. tza)\<rparr>"

definition eastern_2025 :: Zone where
  "eastern_2025 =
     \<lparr>offset_at =
        (\<lambda>t. if 1741503600000 \<le> t \<and> t < 1762063200000
              then - 4 * msPerHour else - 5 * msPerHour),
      offset_of_local =
        (\<lambda>t. if 1741489200000 \<le> t \<and> t < 1762048800000
              then - 4 * msPerHour else - 5 * msPerHour)\<rparr>"

text \<open>The length of month \<open>m\<close> (0 to 11) of year \<open>y\<close>, to state results with.\<close>

definition DaysInMonth :: "int \<Rightarrow> int \<Rightarrow> int" where
  "DaysInMonth y m =
     (if m = 1 then (if DaysInYear y = 365 then 28 else 29)
      else if m = 3 \<or> m = 5 \<or> m = 8 \<or> m = 10 then 30
      else 31)"

section \<open>The data model (shared/schema.ts)\<close>

text \<open>
  A nullable column is an \<open>option\<close>; a \<^verbatim>\<open>Record<string, string>\<close> is a map from strings to
  strings, the object's own properties (a key that is absent reads as undefined, \<open>None\<close>);
  ids are JavaScript numbers, here integers; a timestamp column is a date.
\<close>

type_synonym StringRecord = "string \<rightharpoonup> string"

record Client =
  c_id :: int
  c_name :: string
  c_email :: string
  c_company :: "string option"
  c_phone :: "string option"
  c_language :: string
  c_customFields :: "StringRecord option"
  c_lastInteraction :: "Timestamp option"
  c_createdAt :: Timestamp

record EmailTemplate =
  t_id :: int
  t_name :: string
  t_subject :: StringRecord
  t_content :: StringRecord
  t_variables :: "string list option"
  t_primaryLanguage :: string
  t_supportedLanguages :: "string list option"
  t_usageCount :: "int option"
  t_createdAt :: Timestamp

record ScheduledEmail =
  e_id :: int
  e_clientId :: int
  e_templateId :: int
  e_scheduledFor :: Timestamp
  e_status :: string
  e_language :: string
  e_personalizedSubject :: "string option"
  e_personalizedContent :: "string option"
  e_sentAt :: "Timestamp option"
  e_errorMessage :: "string option"
  e_createdAt :: Timestamp

record EmailLog =
  l_id :: int
  l_clientId :: int
  l_templateId :: "int option"
  l_scheduledEmailId :: "int option"
  l_subject :: string
  l_status :: string
  l_language :: string
  l_sentAt :: Timestamp
  l_deliveredAt :: "Timestamp option"
  l_openedAt :: "Timestamp option"
  l_errorMessage :: "string option"

text \<open>
  \<^verbatim>\<open>InsertScheduledEmail\<close>: the insert schema omits id, createdAt, sentAt and the two
  personalized columns; status, language and errorMessage stay, as optional fields.
\<close>

record InsertScheduledEmail =
  ie_clientId :: int
  ie_templateId :: int
  ie_scheduledFor :: Timestamp
  ie_status :: "string option"
  ie_language :: "string option"
  ie_errorMessage :: "string option"

record InsertEmailLog =
  il_clientId :: int
  il_templateId :: "int option"
  il_scheduledEmailId :: "int option"
  il_subject :: string
  il_status :: string
  il_language :: string
  il_errorMessage :: "string option"

text \<open>\<^verbatim>\<open>Partial<ScheduledEmail>\<close>: every field may be absent (\<open>None\<close>).\<close>

record ScheduledEmailUpdate =
  u_id :: "int option"
  u_clientId :: "int option"
  u_templateId :: "int option"
  u_scheduledFor :: "Timestamp option"
  u_status :: "string option"
  u_language :: "string option"
  u_personalizedSubject :: "string option option"
  u_personalizedContent :: "string option option"
  u_sentAt :: "Timestamp option option"
  u_errorMessage :: "string option option"
  u_createdAt :: "Timestamp option"

definition no_fields :: ScheduledEmailUpdate where
  "no_fields =
     \<lparr>u_id = None, u_clientId = None, u_templateId = None, u_scheduledFor = None,
      u_status = None, u_language = None, u_personalizedSubject = None,
      u_personalizedContent = None, u_sentAt = None, u_errorMessage = None,
      u_createdAt = None\<rparr>"

text \<open>The object spread \<^verbatim>\<open>{ ...existing, ...emailUpdate }\<close>.\<close>

definition override :: "'a \<Rightarrow> 'a option \<Rightarrow> 'a" where
  "override old new = (case new of None \<Rightarrow> old | Some v \<Rightarrow> v)"

definition spread_update :: "ScheduledEmail \<Rightarrow> ScheduledEmailUpdate \<Rightarrow> ScheduledEmail" where
  "spread_update existing u =
     \<lparr>e_id = override (e_id existing) (u_id u),
      e_clientId = override (e_clientId existing) (u_clientId u),
      e_templateId = override (e_templateId existing) (u_templateId u),
      e_scheduledFor = override (e_scheduledFor existing) (u_scheduledFor u),
      e_status = override (e_status existing) (u_status u),
      e_language = override (e_language existing) (u_language u),
      e_personalizedSubject = override (e_personalizedSubject existing) (u_personalizedSubject u),
      e_personalizedContent = override (e_personalizedContent existing) (u_personalizedContent u),
      e_sentAt = override (e_sentAt existing) (u_sentAt u),
      e_errorMessage = override (e_errorMessage existing) (u_errorMessage u),
      e_createdAt = override (e_createdAt existing) (u_createdAt u)\<rparr>"

text \<open>
  \<^verbatim>\<open>a || d\<close> on a string that may be undefined or null: the empty string is falsy too.
\<close>

definition str_or :: "string option \<Rightarrow> string \<Rightarrow> string" where
  "str_or a d = (case a of None \<Rightarrow> d | Some s \<Rightarrow> if s = [] then d else s)"

text \<open>\<^verbatim>\<open>n || null\<close> on a number: zero is falsy.\<close>

definition num_or_null :: "int option \<Rightarrow> int option" where
  "num_or_null a = (case a of None \<Rightarrow> None | Some n \<Rightarrow> if n = 0 then None else Some n)"

text \<open>\<^verbatim>\<open>s || null\<close> on a string.\<close>

definition str_or_null :: "string option \<Rightarrow> string option" where
  "str_or_null a = (case a of None \<Rightarrow> None | Some s \<Rightarrow> if s = [] then None else Some s)"

text \<open>
  A property read \<^verbatim>\<open>r[k]\<close> on a \<^verbatim>\<open>Record<string, string>\<close>, a plain object: the
  object's own property where it has one; otherwise, for the names of the members of
  \<^verbatim>\<open>Object.prototype\<close>, the inherited member, which is a function (for \<^verbatim>\<open>__proto__\<close> the
  prototype itself) and so truthy and not a string; otherwise undefined.
\<close>

datatype js_value = Str string | Inherited string

definition object_prototype_keys :: "string list" where
  "object_prototype_keys =
     [''constructor'', ''__defineGetter__'', ''__defineSetter__'', ''hasOwnProperty'',
      ''__lookupGetter__'', ''__lookupSetter__'', ''isPrototypeOf'', ''propertyIsEnumerable'',
      ''toString'', ''valueOf'', ''__proto__'', ''toLocaleString'']"

definition property :: "StringRecord \<Rightarrow> string \<Rightarrow> js_value option" where
  "property r k =
     (case r k of
        Some s \<Rightarrow> Some (Str s)
      | None \<Rightarrow> if k \<in> set object_prototype_keys then Some (Inherited k) else None)"

definition truthy :: "js_value \<Rightarrow> bool" where
  "truthy v = (case v of Str s \<Rightarrow> s \<noteq> [] | Inherited k \<Rightarrow> True)"

text \<open>\<^verbatim>\<open>a || d\<close> on a value that may be undefined.\<close>

definition value_or :: "js_value option \<Rightarrow> js_value \<Rightarrow> js_value" where
  "value_or a d = (case a of None \<Rightarrow> d | Some v \<Rightarrow> if truthy v then v else d)"

section \<open>The in-memory store (server/storage.ts)\<close>

text \<open>
  A JavaScript \<^verbatim>\<open>Map\<close> iterates in insertion order: it is an association list,
  \<^verbatim>\<open>get\<close> is \<^const>\<open>map_of\<close>, and \<^verbatim>\<open>set\<close> is \<^const>\<open>AList.update\<close>, which replaces
  the value of a present key in place and appends an absent one. The users of the store
  play no part in scheduling and are left out. The clock is a parameter: every
  \<^verbatim>\<open>new Date()\<close> of one operation reads the time \<open>now\<close>.
\<close>

record MemStorage =
  clients :: "(int \<times> Client) list"
  emailTemplates :: "(int \<times> EmailTemplate) list"
  scheduledEmails :: "(int \<times> ScheduledEmail) list"
  emailLogs :: "(int \<times> EmailLog) list"
  currentClientId :: int
  currentTemplateId :: int
  currentScheduledEmailId :: int
  currentLogId :: int

definition new_MemStorage :: MemStorage where
  "new_MemStorage =
     \<lparr>clients = [], emailTemplates = [], scheduledEmails = [], emailLogs = [],
      currentClientId = 1, currentTemplateId = 1, currentScheduledEmailId = 1,
      currentLogId = 1\<rparr>"

definition getClient :: "int \<Rightarrow> MemStorage \<Rightarrow> Client option" where
  "getClient i st = map_of (clients st) i"

definition getEmailTemplate :: "int \<Rightarrow> MemStorage \<Rightarrow> EmailTemplate option" where
  "getEmailTemplate i st = map_of (emailTemplates st) i"

definition getScheduledEmail :: "int \<Rightarrow> MemStorage \<Rightarrow> ScheduledEmail option" where
  "getScheduledEmail i st = map_of (scheduledEmails st) i"

definition incrementTemplateUsage :: "int \<Rightarrow> MemStorage \<Rightarrow> MemStorage" where
  "incrementTemplateUsage i st =
     (case map_of (emailTemplates st) i of
        None \<Rightarrow> st
      | Some template \<Rightarrow>
          st\<lparr>emailTemplates :=
               AList.update i
                 (template\<lparr>t_usageCount :=
                    Some ((case t_usageCount template of
                             None \<Rightarrow> 0
                           | Some n \<Rightarrow> n) + 1)\<rparr>)
                 (emailTemplates st)\<rparr>)"

text \<open>
  \<^verbatim>\<open>Array.prototype.sort\<close> is stable (ECMAScript 2019), and the comparator is the
  difference of the two due times: the sort is \<^const>\<open>sort_key\<close> on the due time.
\<close>

definition getPendingScheduledEmails :: "Timestamp \<Rightarrow> MemStorage \<Rightarrow> ScheduledEmail list" where
  "getPendingScheduledEmails now st =
     sort_key e_scheduledFor
       (filter (\<lambda>email. e_status email = ''pending'' \<and> e_scheduledFor email \<le> now)
          (map snd (scheduledEmails st)))"

definition createScheduledEmail ::
    "Timestamp \<Rightarrow> InsertScheduledEmail \<Rightarrow> MemStorage \<Rightarrow> ScheduledEmail \<times> MemStorage" where
  "createScheduledEmail now insertEmail st =
     (let i = currentScheduledEmailId st;
          email =
            \<lparr>e_id = i,
             e_clientId = ie_clientId insertEmail,
             e_templateId = ie_templateId insertEmail,
             e_scheduledFor = ie_scheduledFor insertEmail,
             e_status = ''pending'',
             e_language = str_or (ie_language insertEmail) ''en'',
             e_personalizedSubject = None,
             e_personalizedContent = None,
             e_sentAt = None,
             e_errorMessage = None,
             e_createdAt = now\<rparr>
      in (email,
          st\<lparr>currentScheduledEmailId := i + 1,
             scheduledEmails := AList.update i email (scheduledEmails st)\<rparr>))"

definition updateScheduledEmail ::
    "int \<Rightarrow> ScheduledEmailUpdate \<Rightarrow> MemStorage \<Rightarrow> ScheduledEmail option \<times> MemStorage" where
  "updateScheduledEmail i emailUpdate st =
     (case map_of (scheduledEmails st) i of
        None \<Rightarrow> (None, st)
      | Some existing \<Rightarrow>
          (let updated = spread_update existing emailUpdate
           in (Some updated,
               st\<lparr>scheduledEmails := AList.update i updated (scheduledEmails st)\<rparr>)))"

definition createEmailLog ::
    "Timestamp \<Rightarrow> InsertEmailLog \<Rightarrow> MemStorage \<Rightarrow> EmailLog \<times> MemStorage" where
  "createEmailLog now insertLog st =
     (let i = currentLogId st;
          log =
            \<lparr>l_id = i,
             l_clientId = il_clientId insertLog,
             l_templateId = num_or_null (il_templateId insertLog),
             l_scheduledEmailId = num_or_null (il_scheduledEmailId insertLog),
             l_subject = il_subject insertLog,
             l_status = il_status insertLog,
             l_language = il_language insertLog,
             l_sentAt = now,
             l_deliveredAt = None,
             l_openedAt = None,
             l_errorMessage = str_or_null (il_errorMessage insertLog)\<rparr>
      in (log,
          st\<lparr>currentLogId := i + 1,
             emailLogs := AList.update i log (emailLogs st)\<rparr>))"

text \<open>
  The invariant of a store built through its own operations: the keys of a \<^verbatim>\<open>Map\<close>
  are distinct, every record is stored under its own id, ids are positive and below the
  counter that hands out the next one, and the scheduled emails stand in the order of their
  ids, which is the order of their creation.
\<close>

definition wf_store :: "MemStorage \<Rightarrow> bool" where
  "wf_store st \<longleftrightarrow>
     distinct (map fst (clients st)) \<and>
     distinct (map fst (emailTemplates st)) \<and>
     distinct (map fst (scheduledEmails st)) \<and>
     distinct (map fst (emailLogs st)) \<and>
     sorted_wrt (<) (map fst (scheduledEmails st)) \<and>
     (\<forall>(k, c) \<in> set (clients st). c_id c = k \<and> 0 < k \<and> k < currentClientId st) \<and>
     (\<forall>(k, t) \<in> set (emailTemplates st). t_id t = k \<and> 0 < k \<and> k < currentTemplateId st) \<and>
     (\<forall>(k, e) \<in> set (scheduledEmails st).
        e_id e = k \<and> 0 < k \<and> k < currentScheduledEmailId st) \<and>
     (\<forall>(k, l) \<in> set (emailLogs st). l_id l = k \<and> 0 < k \<and> k < currentLogId st) \<and>
     0 < currentClientId st \<and> 0 < currentTemplateId st \<and>
     0 < currentScheduledEmailId st \<and> 0 < currentLogId st"

section \<open>The scheduler (server/services/scheduler.ts)\<close>

text \<open>
  A thrown value is an \<^verbatim>\<open>Error\<close> with its message, or anything else. The module
  \<^verbatim>\<open>./email\<close> is outside the scheduler: its two functions and the locale's date
  format are parameters. \<^verbatim>\<open>sendEmail\<close> resolves to a boolean or throws;
  \<^verbatim>\<open>personalizeContent\<close> is handed whatever the template gave, a string or an inherited
  member, and throws or returns a string: its result is what is sent as the subject and
  the body and stored in the text columns of the record and of the log.
\<close>

datatype js_exn = JsError string | Thrown

record Mail =
  m_to :: string
  m_from :: string
  m_subject :: string
  m_html :: string
  m_text :: string

record Services =
  sendEmail :: "Mail \<Rightarrow> js_exn + bool"
  personalizeContent :: "js_value \<Rightarrow> StringRecord \<Rightarrow> js_exn + string"
  toLocaleDateString :: "Timestamp \<Rightarrow> string"

text \<open>\<^verbatim>\<open>s.replace(/<[^>]*>/g, '')\<close>: every \<open><\<close> up to the next \<open>>\<close> goes.\<close>

function stripTags :: "string \<Rightarrow> string" where
  "stripTags [] = []"
| "stripTags (c # cs) =
     (if c = CHR ''<'' \<and> CHR ''>'' \<in> set cs
      then stripTags (tl (dropWhile (\<lambda>x. x \<noteq> CHR ''>'') cs))
      else c # stripTags cs)"
  by pat_completeness auto

lemma length_tl_dropWhile: "length (dropWhile P cs) - Suc 0 < Suc (length cs)"
proof -
  have "length (dropWhile P cs) - Suc 0 \<le> length (dropWhile P cs)" by simp
  also have "\<dots> \<le> length cs" by (rule length_dropWhile_le)
  finally show ?thesis by simp
qed

termination stripTags
  by (relation "measure length") (simp_all add: length_tl_dropWhile)

text \<open>The personalization variables: the built-ins, then the spread of the custom fields.\<close>

definition variables :: "Services \<Rightarrow> Client \<Rightarrow> StringRecord" where
  "variables sv client =
     [''client_name'' \<mapsto> c_name client,
      ''company'' \<mapsto> str_or (c_company client) '''',
      ''last_interaction'' \<mapsto>
        (case c_lastInteraction client of
           Some d \<Rightarrow> toLocaleDateString sv d
         | None \<Rightarrow> ''N/A'')]
     ++ (case c_customFields client of None \<Rightarrow> Map.empty | Some custom \<Rightarrow> custom)"

definition language_of :: "ScheduledEmail \<Rightarrow> Client \<Rightarrow> string" where
  "language_of scheduledEmail client =
     str_or (Some (e_language scheduledEmail)) (str_or (Some (c_language client)) ''en'')"

definition subject_of :: "EmailTemplate \<Rightarrow> string \<Rightarrow> js_value" where
  "subject_of template language =
     value_or (property (t_subject template) language)
       (value_or (property (t_subject template) (t_primaryLanguage template)) (Str ''''))"

definition content_of :: "EmailTemplate \<Rightarrow> string \<Rightarrow> js_value" where
  "content_of template language =
     value_or (property (t_content template) language)
       (value_or (property (t_content template) (t_primaryLanguage template)) (Str ''''))"

definition mail_of :: "Client \<Rightarrow> string \<Rightarrow> string \<Rightarrow> Mail" where
  "mail_of client personalizedSubject personalizedContent =
     \<lparr>m_to = c_email client,
      m_from = ''noreply@emailflow.app'',
      m_subject = personalizedSubject,
      m_html = personalizedContent,
      m_text = stripTags personalizedContent\<rparr>"

definition failed_with :: "string \<Rightarrow> ScheduledEmailUpdate" where
  "failed_with msg = no_fields\<lparr>u_status := Some ''failed'', u_errorMessage := Some (Some msg)\<rparr>"

definition sent_with :: "Timestamp \<Rightarrow> string \<Rightarrow> string \<Rightarrow> ScheduledEmailUpdate" where
  "sent_with now personalizedSubject personalizedContent =
     no_fields\<lparr>u_status := Some ''sent'',
               u_sentAt := Some (Some now),
               u_personalizedSubject := Some (Some personalizedSubject),
               u_personalizedContent := Some (Some personalizedContent)\<rparr>"

text \<open>The message of the \<^verbatim>\<open>catch\<close> block: \<^verbatim>\<open>error instanceof Error ? error.message : 'Unknown error'\<close>.\<close>

definition thrown_message :: "js_exn \<Rightarrow> string" where
  "thrown_message err = (case err of JsError msg \<Rightarrow> msg | Thrown \<Rightarrow> ''Unknown error'')"

text \<open>
  A run ends with the store and the messages handed to the transport, in order; a run that
  throws also carries the thrown value, and the store as it was when it threw.
\<close>

type_synonym Run = "(js_exn \<times> MemStorage \<times> Mail list) + (MemStorage \<times> Mail list)"

text \<open>The body of the \<^verbatim>\<open>try\<close> block of \<^verbatim>\<open>sendScheduledEmail\<close>.\<close>

definition sendScheduledEmail_try ::
    "Services \<Rightarrow> Timestamp \<Rightarrow> ScheduledEmail \<Rightarrow> MemStorage \<Rightarrow> Run" where
  "sendScheduledEmail_try sv now scheduledEmail st =
     (case getClient (e_clientId scheduledEmail) st of
        None \<Rightarrow>
          Inr (snd (updateScheduledEmail (e_id scheduledEmail)
                      (failed_with ''Client or template not found'') st), [])
      | Some client \<Rightarrow>
     (case getEmailTemplate (e_templateId scheduledEmail) st of
        None \<Rightarrow>
          Inr (snd (updateScheduledEmail (e_id scheduledEmail)
                      (failed_with ''Client or template not found'') st), [])
      | Some template \<Rightarrow>
          (let language = language_of scheduledEmail client;
               subject = subject_of template language;
               content = content_of template language
           in if \<not> truthy subject \<or> \<not> truthy content
              then Inr (snd (updateScheduledEmail (e_id scheduledEmail)
                               (failed_with
                                  (''Template content not available for language: '' @ language))
                               st), [])
              else
                (case personalizeContent sv subject (variables sv client) of
                   Inl err \<Rightarrow> Inl (err, st, [])
                 | Inr personalizedSubject \<Rightarrow>
                (case personalizeContent sv content (variables sv client) of
                   Inl err \<Rightarrow> Inl (err, st, [])
                 | Inr personalizedContent \<Rightarrow>
                (let mail = mail_of client personalizedSubject personalizedContent
                 in case sendEmail sv mail of
                      Inl err \<Rightarrow> Inl (err, st, [mail])
                    | Inr success \<Rightarrow>
                        if success
                        then
                          (let st1 = snd (updateScheduledEmail (e_id scheduledEmail)
                                            (sent_with now personalizedSubject personalizedContent)
                                            st);
                               st2 = snd (createEmailLog now
                                            \<lparr>il_clientId = c_id client,
                                             il_templateId = Some (t_id template),
                                             il_scheduledEmailId = Some (e_id scheduledEmail),
                                             il_subject = personalizedSubject,
                                             il_status = ''sent'',
                                             il_language = language,
                                             il_errorMessage = None\<rparr>
                                            st1);
                               st3 = incrementTemplateUsage (t_id template) st2
                           in Inr (st3, [mail]))
                        else Inr (snd (updateScheduledEmail (e_id scheduledEmail)
                                         (failed_with ''Failed to send email via SendGrid'')
                                         st), [mail])))))))"

text \<open>The \<^verbatim>\<open>catch\<close> block: the thrown value becomes the record's error message.\<close>

definition sendScheduledEmail ::
    "Services \<Rightarrow> Timestamp \<Rightarrow> ScheduledEmail \<Rightarrow> MemStorage \<Rightarrow> Run" where
  "sendScheduledEmail sv now scheduledEmail st =
     (case sendScheduledEmail_try sv now scheduledEmail st of
        Inr r \<Rightarrow> Inr r
      | Inl (err, st1, calls) \<Rightarrow>
          Inr (snd (updateScheduledEmail (e_id scheduledEmail)
                      (failed_with (thrown_message err))
                      st1), calls))"

text \<open>The \<^verbatim>\<open>for ... of\<close> loop over the fetched records; a throw leaves the loop.\<close>

fun send_each ::
    "Services \<Rightarrow> Timestamp \<Rightarrow> ScheduledEmail list \<Rightarrow> MemStorage \<Rightarrow> Mail list \<Rightarrow> Run" where
  "send_each sv now [] st calls = Inr (st, calls)"
| "send_each sv now (scheduledEmail # rest) st calls =
     (case sendScheduledEmail sv now scheduledEmail st of
        Inl (err, st1, c) \<Rightarrow> Inl (err, st1, calls @ c)
      | Inr (st1, c) \<Rightarrow> send_each sv now rest st1 (calls @ c))"

text \<open>One tick: the outer \<^verbatim>\<open>catch\<close> only logs to the console.\<close>

definition processPendingEmails ::
    "Services \<Rightarrow> Timestamp \<Rightarrow> MemStorage \<Rightarrow> MemStorage \<times> Mail list" where
  "processPendingEmails sv now st =
     (case send_each sv now (getPendingScheduledEmails now st) st [] of
        Inr r \<Rightarrow> r
      | Inl (err, st1, calls) \<Rightarrow> (st1, calls))"

text \<open>The store a single dispatch ends with, thrown or not.\<close>

definition store_after :: "Run \<Rightarrow> MemStorage" where
  "store_after r = (case r of Inl (err, st, calls) \<Rightarrow> st | Inr (st, calls) \<Rightarrow> st)"

definition calls_of :: "Run \<Rightarrow> Mail list" where
  "calls_of r = (case r of Inl (err, st, calls) \<Rightarrow> calls | Inr (st, calls) \<Rightarrow> calls)"

text \<open>The delays \<^verbatim>\<open>'immediate' | '1day' | '1week' | '1month'\<close>.\<close>

datatype Delay = Immediate | OneDay | OneWeek | OneMonth

text \<open>The \<^verbatim>\<open>switch\<close> of \<^verbatim>\<open>scheduleEmail\<close> on the date \<open>scheduledFor\<close>.\<close>

definition scheduledFor_after :: "Zone \<Rightarrow> Delay \<Rightarrow> Timestamp \<Rightarrow> Timestamp" where
  "scheduledFor_after z delay scheduledFor =
     (case delay of
        Immediate \<Rightarrow> setMinutes z scheduledFor (getMinutes z scheduledFor + 1)
      | OneDay \<Rightarrow> setDate z scheduledFor (getDate z scheduledFor + 1)
      | OneWeek \<Rightarrow> setDate z scheduledFor (getDate z scheduledFor + 7)
      | OneMonth \<Rightarrow> setMonth z scheduledFor (getMonth z scheduledFor + 1))"

definition scheduleEmail ::
    "Zone \<Rightarrow> Timestamp \<Rightarrow> int \<Rightarrow> int \<Rightarrow> Delay \<Rightarrow> string option \<Rightarrow> MemStorage
      \<Rightarrow> ScheduledEmail \<times> MemStorage" where
  "scheduleEmail z now clientId templateId delay language st =
     createScheduledEmail now
       \<lparr>ie_clientId = clientId,
        ie_templateId = templateId,
        ie_scheduledFor = scheduledFor_after z delay now,
        ie_status = None,
        ie_language = Some (str_or language ''en''),
        ie_errorMessage = None\<rparr>
       st"

section \<open>Notions to state the results with\<close>

text \<open>
  The local time that a delay asks for: the local time of \<open>now\<close> moved on by a minute, a
  day, seven days, or the length of the month \<open>now\<close> lies in. The offset is kept where
  the offset that the zone gives that local time is the offset in force at \<open>now\<close>, as it
  is wherever no transition of the zone lies between the two; the local time exists where
  the zone's time at the due time reads it, as it does unless a transition skips it.
\<close>

definition local_advance :: "Zone \<Rightarrow> Delay \<Rightarrow> Timestamp \<Rightarrow> int" where
  "local_advance z delay now =
     (case delay of
        Immediate \<Rightarrow> msPerMinute
      | OneDay \<Rightarrow> msPerDay
      | OneWeek \<Rightarrow> 7 * msPerDay
      | OneMonth \<Rightarrow> DaysInMonth (getFullYear z now) (getMonth z now) * msPerDay)"

definition local_due :: "Zone \<Rightarrow> Delay \<Rightarrow> Timestamp \<Rightarrow> int" where
  "local_due z delay now = LocalTime z now + local_advance z delay now"

definition offset_kept :: "Zone \<Rightarrow> Delay \<Rightarrow> Timestamp \<Rightarrow> bool" where
  "offset_kept z delay now \<longleftrightarrow> offset_of_local z (local_due z delay now) = offset_at z now"

definition local_time_exists :: "Zone \<Rightarrow> int \<Rightarrow> bool" where
  "local_time_exists z t \<longleftrightarrow> LocalTime z (UTC z t) = t"



text \<open>
  What a dispatch reads of a template, and two stores that a dispatch cannot tell apart by
  their clients and templates.
\<close>

definition template_view :: "EmailTemplate \<Rightarrow> int \<times> StringRecord \<times> StringRecord \<times> string" where
  "template_view t = (t_id t, t_subject t, t_content t, t_primaryLanguage t)"

definition same_directory :: "MemStorage \<Rightarrow> MemStorage \<Rightarrow> bool" where
  "same_directory st st' \<longleftrightarrow>
     clients st' = clients st \<and>
     (\<forall>k. map_option template_view (getEmailTemplate k st') =
          map_option template_view (getEmailTemplate k st))"

text \<open>The update that a dispatch of a record writes to it, by the way the dispatch takes.\<close>

definition outcome_update ::
    "Services \<Rightarrow> Timestamp \<Rightarrow> ScheduledEmail \<Rightarrow> MemStorage \<Rightarrow> ScheduledEmailUpdate" where
  "outcome_update sv now e st =
     (case getClient (e_clientId e) st of
        None \<Rightarrow> failed_with ''Client or template not found''
      | Some c \<Rightarrow>
     (case getEmailTemplate (e_templateId e) st of
        None \<Rightarrow> failed_with ''Client or template not found''
      | Some t \<Rightarrow>
          if \<not> truthy (subject_of t (language_of e c)) \<or> \<not> truthy (content_of t (language_of e c))
          then failed_with (''Template content not available for language: '' @ language_of e c)
          else
            (case personalizeContent sv (subject_of t (language_of e c)) (variables sv c) of
               Inl err \<Rightarrow> failed_with (thrown_message err)
             | Inr subject \<Rightarrow>
            (case personalizeContent sv (content_of t (language_of e c)) (variables sv c) of
               Inl err \<Rightarrow> failed_with (thrown_message err)
             | Inr content \<Rightarrow>
            (case sendEmail sv (mail_of c subject content) of
               Inl err \<Rightarrow> failed_with (thrown_message err)
             | Inr ok \<Rightarrow>
                 if ok then sent_with now subject content
                 else failed_with ''Failed to send email via SendGrid'')))))"

text \<open>The usage count of the template stored under a key, where \<^verbatim>\<open>null\<close> counts as 0.\<close>

definition usage :: "int \<Rightarrow> MemStorage \<Rightarrow> int" where
  "usage k st =
     (case getEmailTemplate k st of
        None \<Rightarrow> 0
      | Some t \<Rightarrow> (case t_usageCount t of None \<Rightarrow> 0 | Some n \<Rightarrow> n))"

text \<open>Earlier due, or due at the same time and created earlier (ids count creations).\<close>

definition due_before :: "ScheduledEmail \<Rightarrow> ScheduledEmail \<Rightarrow> bool" where
  "due_before a b \<longleftrightarrow>
     e_scheduledFor a < e_scheduledFor b \<or>
     (e_scheduledFor a = e_scheduledFor b \<and> e_id a < e_id b)"

text \<open>A record has a truthy value under a key.\<close>

definition truthy_at :: "StringRecord \<Rightarrow> string \<Rightarrow> bool" where
  "truthy_at r k = (case property r k of None \<Rightarrow> False | Some v \<Rightarrow> truthy v)"

section \<open>A small store, for the examples\<close>

definition example_client :: Client where
  "example_client =
     \<lparr>c_id = 1, c_name = ''Ada'', c_email = ''ada@example.org'', c_company = None,
      c_phone = None, c_language = ''en'', c_customFields = None, c_lastInteraction = None,
      c_createdAt = 0\<rparr>"

definition example_template :: EmailTemplate where
  "example_template =
     \<lparr>t_id = 1, t_name = ''Welcome'',
      t_subject = [''en'' \<mapsto> ''Hello'', ''fr'' \<mapsto> ''Bonjour''],
      t_content = [''en'' \<mapsto> ''<p>Hi</p>''],
      t_variables = None, t_primaryLanguage = ''en'', t_supportedLanguages = None,
      t_usageCount = Some 0, t_createdAt = 0\<rparr>"

definition example_email :: "int \<Rightarrow> int \<Rightarrow> string \<Rightarrow> string \<Rightarrow> ScheduledEmail" where
  "example_email i client language status =
     \<lparr>e_id = i, e_clientId = client, e_templateId = 1, e_scheduledFor = 60000,
      e_status = status, e_language = language, e_personalizedSubject = None,
      e_personalizedContent = None, e_sentAt = None, e_errorMessage = None, e_createdAt = 0\<rparr>"

definition example_store :: "ScheduledEmail list \<Rightarrow> MemStorage" where
  "example_store emails =
     \<lparr>clients = [(1, example_client)],
      emailTemplates = [(1, example_template)],
      scheduledEmails = map (\<lambda>e. (e_id e, e)) emails,
      emailLogs = [],
      currentClientId = 2, currentTemplateId = 2, currentScheduledEmailId = 3,
      currentLogId = 1\<rparr>"

definition example_services :: "js_exn + bool \<Rightarrow> Services" where
  "example_services answer =
     \<lparr>sendEmail = (\<lambda>mail. answer),
      personalizeContent =
        (\<lambda>content vars. case content of
             Str s \<Rightarrow> Inr s
           | Inherited k \<Rightarrow> Inl (JsError ''content.replace is not a function'')),
      toLocaleDateString = (\<lambda>d. [])\<rparr>"

text \<open>
  A store for a tick of five due records: of a client that does not exist, of three clients
  whose mail the transport below rejects by throwing, refuses and accepts, and of a
  language that names a member of \<^verbatim>\<open>Object.prototype\<close>.
\<close>

definition example_transport :: "Mail \<Rightarrow> js_exn + bool" where
  "example_transport mail =
     (if m_to mail = ''bob@example.org'' then Inl (JsError ''mailbox unavailable'')
      else if m_to mail = ''cy@example.org'' then Inr False
      else Inr True)"

definition example_tick_services :: Services where
  "example_tick_services = (example_services (Inr True))\<lparr>sendEmail := example_transport\<rparr>"

definition example_tick_store :: MemStorage where
  "example_tick_store =
     (example_store
        [example_email 1 7 ''en'' ''pending'',
         example_email 2 2 ''en'' ''pending'',
         example_email 3 3 ''en'' ''pending'',
         example_email 4 1 ''constructor'' ''pending'',
         example_email 5 1 ''en'' ''pending''])
       \<lparr>clients :=
          [(1, example_client),
           (2, example_client\<lparr>c_id := 2, c_name := ''Bob'', c_email := ''bob@example.org''\<rparr>),
           (3, example_client\<lparr>c_id := 3, c_name := ''Cy'', c_email := ''cy@example.org''\<rparr>)],
        currentClientId := 4,
        currentScheduledEmailId := 6\<rparr>"

lemmas example_defs =
  example_client_def example_template_def example_email_def example_store_def
  example_services_def

lemmas example_tick_defs =
  example_defs example_transport_def example_tick_services_def example_tick_store_def
section \<open>Facts about dates\<close>

lemma year_search_bounds:
  "DayFromYear y \<le> d \<Longrightarrow>
   DayFromYear (year_search y d) \<le> d \<and> d < DayFromYear (year_search y d + 1)"
proof (induction y d rule: year_search.induct)
  case (1 y d)
  show ?case
  proof (cases "DayFromYear (y + 1) \<le> d")
    case True
    then have "year_search y d = year_search (y + 1) d"
      by (subst year_search.simps) simp
    with 1 True show ?thesis by simp
  next
    case False
    then have "year_search y d = y"
      by (subst year_search.simps) simp
    with 1 False show ?thesis by simp
  qed
qed

lemma DayFromYear_1970: "DayFromYear 1970 = 0"
  by (simp add: DayFromYear_def)

lemma DayFromYear_upper: "0 \<le> k \<Longrightarrow> DayFromYear (1970 + k) \<le> 366 * k"
proof (induction k rule: int_ge_induct)
  case base
  show ?case by (simp add: DayFromYear_1970)
next
  case (step i)
  have "DayFromYear (1970 + (i + 1)) = DayFromYear (1970 + i) + DaysInYear (1970 + i)"
    using DayFromYear_Suc [of "1970 + i"] by (simp add: add.assoc)
  with step DaysInYear_cases [of "1970 + i"] show ?case by auto
qed

lemma DayFromYear_lower: "k \<le> 0 \<Longrightarrow> DayFromYear (1970 + k) \<le> 365 * k"
proof (induction k rule: int_le_induct)
  case base
  show ?case by (simp add: DayFromYear_1970)
next
  case (step i)
  have "DayFromYear (1970 + i) = DayFromYear (1970 + (i - 1)) + DaysInYear (1970 + (i - 1))"
    using DayFromYear_Suc [of "1970 + (i - 1)"] by simp
  with step DaysInYear_cases [of "1970 + (i - 1)"] show ?case by auto
qed

lemma year_start_le:
  "DayFromYear (1970 + (if 0 \<le> d then d div 366 else d div 365)) \<le> d"
proof (cases "0 \<le> d")
  case True
  then have "0 \<le> d div 366" by simp
  from DayFromYear_upper [OF this] have "DayFromYear (1970 + d div 366) \<le> 366 * (d div 366)" .
  also have "\<dots> \<le> d" by simp
  finally show ?thesis using True by simp
next
  case False
  then have "d div 365 \<le> 0" by simp
  from DayFromYear_lower [OF this] have "DayFromYear (1970 + d div 365) \<le> 365 * (d div 365)" .
  also have "\<dots> \<le> d" by simp
  finally show ?thesis using False by simp
qed

lemma YearFromTime_bounds:
  "DayFromYear (YearFromTime t) \<le> Day t \<and> Day t < DayFromYear (YearFromTime t + 1)"
  unfolding YearFromTime_def Let_def
  by (rule year_search_bounds) (rule year_start_le)

lemma DayFromYear_mono: "y \<le> y' \<Longrightarrow> DayFromYear y \<le> DayFromYear y'"
proof (induction y' rule: int_ge_induct)
  case base
  show ?case by simp
next
  case (step i)
  with DayFromYear_Suc [of i] DaysInYear_cases [of i] show ?case by auto
qed

lemma YearFromTime_unique:
  assumes "DayFromYear y \<le> Day t" and "Day t < DayFromYear (y + 1)"
  shows "YearFromTime t = y"
proof (rule ccontr)
  assume ne: "YearFromTime t \<noteq> y"
  note b = YearFromTime_bounds [of t]
  show False
  proof (cases "YearFromTime t < y")
    case True
    then have "DayFromYear (YearFromTime t + 1) \<le> DayFromYear y"
      by (intro DayFromYear_mono) simp
    with b assms show False by simp
  next
    case False
    with ne have "DayFromYear (y + 1) \<le> DayFromYear (YearFromTime t)"
      by (intro DayFromYear_mono) simp
    with b assms show False by simp
  qed
qed

lemma DayWithinYear_bounds:
  "0 \<le> DayWithinYear t \<and> DayWithinYear t < DaysInYear (YearFromTime t)"
  using YearFromTime_bounds [of t] DayFromYear_Suc [of "YearFromTime t"]
  by (simp add: DayWithinYear_def)

lemma InLeapYear_cases: "InLeapYear t = 0 \<or> InLeapYear t = 1"
  by (simp add: InLeapYear_def)

lemma DaysInYear_leap: "DaysInYear (YearFromTime t) = 365 + InLeapYear t"
  using DaysInYear_cases [of "YearFromTime t"] by (auto simp: InLeapYear_def)

lemma MonthOfDay_range: "0 \<le> MonthOfDay d L \<and> MonthOfDay d L \<le> 11"
  by (simp add: MonthOfDay_def)

lemma MonthFromTime_range: "0 \<le> MonthFromTime t \<and> MonthFromTime t \<le> 11"
  by (simp add: MonthFromTime_def MonthOfDay_range)

lemma MakeDay_in_year:
  "0 \<le> m \<Longrightarrow> m \<le> 11 \<Longrightarrow>
   MakeDay y m d =
     DayFromYear y + MonthStart m (if DaysInYear y = 365 then 0 else 1) + d - 1"
  by (simp add: MakeDay_def Let_def div_pos_pos_trivial mod_pos_pos_trivial)

lemma MakeDay_civil:
  "MakeDay (YearFromTime t) (MonthFromTime t) (DateFromTime t) = Day t"
  using MonthFromTime_range [of t]
  by (simp add: MakeDay_in_year DateFromTime_def InLeapYear_def DayWithinYear_def)

lemma Day_MakeDate:
  assumes "0 \<le> tod" and "tod < msPerDay"
  shows "Day (MakeDate D tod) = D" and "TimeWithinDay (MakeDate D tod) = tod"
proof -
  have e: "MakeDate D tod = msPerDay * D + tod" by (simp add: MakeDate_def)
  show "Day (MakeDate D tod) = D"
    unfolding Day_def using int_div_pos_eq [OF e assms] .
  show "TimeWithinDay (MakeDate D tod) = tod"
    unfolding TimeWithinDay_def using int_mod_pos_eq [OF e assms] .
qed

lemma TimeWithinDay_range: "0 \<le> TimeWithinDay t \<and> TimeWithinDay t < msPerDay"
  by (simp add: TimeWithinDay_def msPerDay_def)

lemma MakeDate_Day: "MakeDate (Day t) (TimeWithinDay t) = t"
  by (simp add: MakeDate_def Day_def TimeWithinDay_def)

lemma MakeDate_add: "MakeDate (D + n) tod = MakeDate D tod + n * msPerDay"
  by (simp add: MakeDate_def algebra_simps)

lemma MakeDay_date_add: "MakeDay y m (d + n) = MakeDay y m d + n"
  by (simp add: MakeDay_def Let_def)

lemma day_later:
  "MakeDate (MakeDay (YearFromTime lt) (MonthFromTime lt) (DateFromTime lt + n)) (TimeWithinDay lt) =
     lt + n * msPerDay"
proof -
  have "MakeDay (YearFromTime lt) (MonthFromTime lt) (DateFromTime lt + n) = Day lt + n"
    by (simp add: MakeDay_date_add MakeDay_civil)
  then show ?thesis
    by (simp add: MakeDate_add MakeDate_Day)
qed

lemma setDate_local:
  "setDate z t (getDate z t + n) = UTC z (LocalTime z t + n * msPerDay)"
  by (simp add: setDate_def getDate_def Let_def day_later)

lemma div_minute: "(t::int) div 60000 = t div 1000 div 60"
proof -
  have "t div (1000 * 60) = t div 1000 div 60" by (rule zdiv_zmult2_eq) simp
  moreover have "(1000::int) * 60 = 60000" by simp
  ultimately show ?thesis by (simp only:)
qed

lemma div_hour: "(t::int) div 3600000 = t div 1000 div 60 div 60"
proof -
  have "t div (60000 * 60) = t div 60000 div 60" by (rule zdiv_zmult2_eq) simp
  moreover have "(60000::int) * 60 = 3600000" by simp
  ultimately show ?thesis by (simp only: div_minute)
qed

lemma div_day: "(t::int) div 86400000 = t div 1000 div 60 div 60 div 24"
proof -
  have "t div (3600000 * 24) = t div 3600000 div 24" by (rule zdiv_zmult2_eq) simp
  moreover have "(3600000::int) * 24 = 86400000" by simp
  ultimately show ?thesis by (simp only: div_hour)
qed

lemma fields_sum:
  fixes t a b c e :: int
  assumes "t = a * 1000 + r1" and "a = b * 60 + r2" and "b = c * 60 + r3" and "c = e * 24 + r4"
  shows "e * 86400000 + (r4 * 3600000 + r3 * 60000 + r2 * 1000 + r1) = t"
  using assms by algebra

lemma time_fields:
  "MakeDate (Day t) (MakeTime (HourFromTime t) (MinFromTime t) (SecFromTime t) (msFromTime t)) = t"
  unfolding MakeDate_def MakeTime_def Day_def HourFromTime_def MinFromTime_def SecFromTime_def
    msFromTime_def msPerDay_def msPerHour_def msPerMinute_def msPerSecond_def
    div_minute div_hour div_day
  by (rule fields_sum) simp_all

lemma minute_later:
  "MakeDate (Day lt) (MakeTime (HourFromTime lt) (MinFromTime lt + 1) (SecFromTime lt) (msFromTime lt)) =
     lt + msPerMinute"
proof -
  have "MakeTime (HourFromTime lt) (MinFromTime lt + 1) (SecFromTime lt) (msFromTime lt)
        = MakeTime (HourFromTime lt) (MinFromTime lt) (SecFromTime lt) (msFromTime lt) + msPerMinute"
    by (simp add: MakeTime_def algebra_simps)
  then show ?thesis
    using time_fields [of lt] by (simp add: MakeDate_def)
qed

lemma setMinutes_local:
  "setMinutes z t (getMinutes z t + 1) = UTC z (LocalTime z t + msPerMinute)"
  by (simp add: setMinutes_def getMinutes_def Let_def minute_later)

lemma month_cases:
  "0 \<le> (m::int) \<Longrightarrow> m \<le> 11 \<Longrightarrow>
   m = 0 \<or> m = 1 \<or> m = 2 \<or> m = 3 \<or> m = 4 \<or> m = 5 \<or> m = 6 \<or> m = 7 \<or> m = 8 \<or> m = 9 \<or>
   m = 10 \<or> m = 11"
  by presburger

lemma DaysInMonth_range: "28 \<le> DaysInMonth y m \<and> DaysInMonth y m \<le> 31"
  by (simp add: DaysInMonth_def)

lemma MonthStart_next:
  assumes "0 \<le> m" and "m < 11"
  shows "MonthStart (m + 1) (if DaysInYear y = 365 then 0 else 1) =
         MonthStart m (if DaysInYear y = 365 then 0 else 1) + DaysInMonth y m"
proof -
  from assms have "m = 0 \<or> m = 1 \<or> m = 2 \<or> m = 3 \<or> m = 4 \<or> m = 5 \<or> m = 6 \<or> m = 7 \<or> m = 8
      \<or> m = 9 \<or> m = 10"
    by presburger
  then show ?thesis
    by (elim disjE) (simp_all add: MonthStart_def DaysInMonth_def)
qed

lemma MakeDay_next_month:
  assumes "0 \<le> m" and "m \<le> 11"
  shows "MakeDay y (m + 1) d = MakeDay y m d + DaysInMonth y m"
proof (cases "m = 11")
  case True
  have "MakeDay y 12 d = DayFromYear (y + 1) + d - 1"
    by (simp add: MakeDay_def Let_def MonthStart_def)
  moreover have "MakeDay y 11 d = DayFromYear y + (334 + (if DaysInYear y = 365 then 0 else 1)) + d - 1"
    by (simp add: MakeDay_in_year MonthStart_def)
  ultimately show ?thesis
    using True DaysInYear_cases [of y] by (auto simp: DayFromYear_Suc DaysInMonth_def)
next
  case False
  with assms have m: "m < 11" "0 \<le> m + 1" "m + 1 \<le> 11" by simp_all
  show ?thesis
    using assms m by (simp add: MakeDay_in_year MonthStart_next)
qed

lemma month_later:
  "MakeDate (MakeDay (YearFromTime lt) (MonthFromTime lt + 1) (DateFromTime lt)) (TimeWithinDay lt) =
     lt + DaysInMonth (YearFromTime lt) (MonthFromTime lt) * msPerDay"
proof -
  have "MakeDay (YearFromTime lt) (MonthFromTime lt + 1) (DateFromTime lt) =
        Day lt + DaysInMonth (YearFromTime lt) (MonthFromTime lt)"
    using MonthFromTime_range [of lt] by (simp add: MakeDay_next_month MakeDay_civil)
  then show ?thesis
    by (simp add: MakeDate_add MakeDate_Day)
qed

lemma setMonth_local:
  "setMonth z t (getMonth z t + 1) =
     UTC z (LocalTime z t + DaysInMonth (getFullYear z t) (getMonth z t) * msPerDay)"
  by (simp add: setMonth_def getMonth_def getFullYear_def Let_def month_later)

lemma month_table:
  assumes "L = 0 \<or> L = 1" and "0 \<le> m" and "m \<le> 11" and "1 \<le> d"
    and "d \<le> (if m = 1 then 28 + L else if m = 3 \<or> m = 5 \<or> m = 8 \<or> m = 10 then 30 else 31)"
  shows "MonthOfDay (MonthStart m L + d - 1) L = m"
    and "MonthStart m L + d - 1 < 365 + L"
proof -
  note c = month_cases [OF assms(2,3)]
  show "MonthOfDay (MonthStart m L + d - 1) L = m"
    using c assms(1,4,5) by (elim disjE) (simp_all add: MonthStart_def MonthOfDay_def)
  show "MonthStart m L + d - 1 < 365 + L"
    using c assms(1,4,5) by (elim disjE) (simp_all add: MonthStart_def)
qed

lemma day_table:
  assumes "L = 0 \<or> L = 1" and "0 \<le> x" and "x < 365 + L"
  shows "1 \<le> x - MonthStart (MonthOfDay x L) L + 1"
    and "x - MonthStart (MonthOfDay x L) L + 1 \<le>
         (if MonthOfDay x L = 1 then 28 + L
          else if MonthOfDay x L = 3 \<or> MonthOfDay x L = 5 \<or> MonthOfDay x L = 8 \<or> MonthOfDay x L = 10
          then 30 else 31)"
  using assms by (auto simp: MonthStart_def MonthOfDay_def)

lemma DaysInMonth_leap:
  "DaysInMonth y m =
     (if m = 1 then 28 + (if DaysInYear y = 365 then 0 else 1)
      else if m = 3 \<or> m = 5 \<or> m = 8 \<or> m = 10 then 30 else 31)"
  by (simp add: DaysInMonth_def)

lemma MonthStart_nonneg: "0 \<le> L \<Longrightarrow> 0 \<le> MonthStart m L"
  by (simp add: MonthStart_def)

lemma civil_of_MakeDay:
  assumes m: "0 \<le> m" "m \<le> 11" and d: "1 \<le> d" "d \<le> DaysInMonth y m"
    and tod: "0 \<le> tod" "tod < msPerDay"
  shows "YearFromTime (MakeDate (MakeDay y m d) tod) = y"
    and "MonthFromTime (MakeDate (MakeDay y m d) tod) = m"
    and "DateFromTime (MakeDate (MakeDay y m d) tod) = d"
proof -
  define L :: int where "L = (if DaysInYear y = 365 then 0 else 1)"
  define x where "x = MonthStart m L + d - 1"
  define t where "t = MakeDate (MakeDay y m d) tod"
  have L: "L = 0 \<or> L = 1" by (simp add: L_def)
  have dL: "d \<le> (if m = 1 then 28 + L else if m = 3 \<or> m = 5 \<or> m = 8 \<or> m = 10 then 30 else 31)"
    using d(2) unfolding DaysInMonth_leap L_def .
  have x0: "0 \<le> x"
    using MonthStart_nonneg [of L m] L d(1) by (auto simp: x_def)
  have xL: "x < 365 + L"
    unfolding x_def by (rule month_table(2) [OF L m d(1) dL])
  have year_len: "DaysInYear y = 365 + L"
    using DaysInYear_cases [of y] by (auto simp: L_def)
  have day: "Day t = DayFromYear y + x"
    unfolding t_def Day_MakeDate(1) [OF tod] x_def L_def
    using m by (simp add: MakeDay_in_year)
  show y: "YearFromTime (MakeDate (MakeDay y m d) tod) = y"
    unfolding t_def [symmetric]
    by (rule YearFromTime_unique) (use day x0 xL year_len in \<open>simp_all add: DayFromYear_Suc\<close>)
  have leap: "InLeapYear t = L"
    using y by (simp add: InLeapYear_def t_def L_def)
  have within: "DayWithinYear t = x"
    using y day by (simp add: DayWithinYear_def t_def)
  show mo: "MonthFromTime (MakeDate (MakeDay y m d) tod) = m"
    unfolding t_def [symmetric] MonthFromTime_def leap within x_def
    by (rule month_table(1) [OF L m d(1) dL])
  show "DateFromTime (MakeDate (MakeDay y m d) tod) = d"
    using mo unfolding t_def [symmetric] DateFromTime_def leap within
    by (simp add: x_def)
qed

lemma DateFromTime_range:
  "1 \<le> DateFromTime t \<and> DateFromTime t \<le> DaysInMonth (YearFromTime t) (MonthFromTime t)"
proof -
  note b = DayWithinYear_bounds [of t]
  have L: "InLeapYear t = 0 \<or> InLeapYear t = 1" by (rule InLeapYear_cases)
  have x: "0 \<le> DayWithinYear t" "DayWithinYear t < 365 + InLeapYear t"
    using b by (simp_all add: DaysInYear_leap)
  have dim: "DaysInMonth (YearFromTime t) (MonthFromTime t) =
      (if MonthFromTime t = 1 then 28 + InLeapYear t
       else if MonthFromTime t = 3 \<or> MonthFromTime t = 5 \<or> MonthFromTime t = 8 \<or> MonthFromTime t = 10
       then 30 else 31)"
    by (simp add: DaysInMonth_leap InLeapYear_def)
  have "1 \<le> DateFromTime t \<and> DateFromTime t \<le>
      (if MonthFromTime t = 1 then 28 + InLeapYear t
       else if MonthFromTime t = 3 \<or> MonthFromTime t = 5 \<or> MonthFromTime t = 8 \<or> MonthFromTime t = 10
       then 30 else 31)"
    unfolding DateFromTime_def MonthFromTime_def
    by (rule conjI) (rule day_table [OF L x])+
  then show ?thesis
    unfolding dim .
qed

lemma MakeDay_carry: "MakeDay y m d = MakeDay (y + m div 12) (m mod 12) d"
  by (simp add: MakeDay_def Let_def)

lemma mod12_range: "0 \<le> (m::int) mod 12 \<and> m mod 12 \<le> 11"
  by simp

lemma month_later_fields:
  fixes lt :: int
  defines "y1 \<equiv> YearFromTime lt + (MonthFromTime lt + 1) div 12"
    and "m1 \<equiv> (MonthFromTime lt + 1) mod 12"
    and "d \<equiv> DateFromTime lt"
    and "wall \<equiv> lt + DaysInMonth (YearFromTime lt) (MonthFromTime lt) * msPerDay"
  shows "TimeWithinDay wall = TimeWithinDay lt"
    and "d \<le> DaysInMonth y1 m1 \<Longrightarrow>
         YearFromTime wall = y1 \<and> MonthFromTime wall = m1 \<and> DateFromTime wall = d"
    and "DaysInMonth y1 m1 < d \<Longrightarrow>
         YearFromTime wall = y1 + (m1 + 1) div 12 \<and> MonthFromTime wall = (m1 + 1) mod 12 \<and>
         DateFromTime wall = d - DaysInMonth y1 m1"
proof -
  define tod where "tod = TimeWithinDay lt"
  have tod: "0 \<le> tod" "tod < msPerDay"
    using TimeWithinDay_range [of lt] by (simp_all add: tod_def)
  have local: "wall = MakeDate (MakeDay (YearFromTime lt) (MonthFromTime lt + 1) (DateFromTime lt)) tod"
    unfolding wall_def tod_def by (rule month_later [symmetric])
  have carry: "MakeDay (YearFromTime lt) (MonthFromTime lt + 1) (DateFromTime lt) = MakeDay y1 m1 d"
    unfolding y1_def m1_def d_def by (rule MakeDay_carry)
  have local': "wall = MakeDate (MakeDay y1 m1 d) tod"
    unfolding local carry ..
  show "TimeWithinDay wall = TimeWithinDay lt"
    unfolding local using Day_MakeDate(2) [OF tod] by (simp add: tod_def)
  have m1: "0 \<le> m1" "m1 \<le> 11" using mod12_range by (simp_all add: m1_def)
  have d1: "1 \<le> d" and d31: "d \<le> 31"
    using DateFromTime_range [of lt] DaysInMonth_range [of "YearFromTime lt" "MonthFromTime lt"]
    by (simp_all add: d_def)
  {
    assume le: "d \<le> DaysInMonth y1 m1"
    show "YearFromTime wall = y1 \<and> MonthFromTime wall = m1 \<and> DateFromTime wall = d"
      unfolding local' using civil_of_MakeDay [OF m1 d1 le tod] by simp
  }
  {
    assume gt: "DaysInMonth y1 m1 < d"
    define y2 where "y2 = y1 + (m1 + 1) div 12"
    define m2 where "m2 = (m1 + 1) mod 12"
    define d2 where "d2 = d - DaysInMonth y1 m1"
    have m2: "0 \<le> m2" "m2 \<le> 11" using mod12_range by (simp_all add: m2_def)
    have d2: "1 \<le> d2" "d2 \<le> DaysInMonth y2 m2"
      using gt d31 DaysInMonth_range [of y1 m1] DaysInMonth_range [of y2 m2]
      by (simp_all add: d2_def)
    have "MakeDay y1 m1 d = MakeDay y1 m1 (d2 + DaysInMonth y1 m1)"
      by (simp add: d2_def)
    also have "\<dots> = MakeDay y1 m1 d2 + DaysInMonth y1 m1"
      by (rule MakeDay_date_add)
    also have "\<dots> = MakeDay y1 (m1 + 1) d2"
      using MakeDay_next_month [OF m1] by simp
    also have "\<dots> = MakeDay y2 m2 d2"
      unfolding y2_def m2_def by (rule MakeDay_carry)
    finally have e: "MakeDay y1 m1 d = MakeDay y2 m2 d2" .
    show "YearFromTime wall = y1 + (m1 + 1) div 12 \<and> MonthFromTime wall = (m1 + 1) mod 12 \<and>
         DateFromTime wall = d - DaysInMonth y1 m1"
      unfolding local' e
      using civil_of_MakeDay [OF m2 d2 tod] by (simp add: y2_def m2_def d2_def)
  }
qed










section \<open>Facts about the store\<close>

lemma update_fresh: "k \<notin> fst ` set al \<Longrightarrow> AList.update k v al = al @ [(k, v)]"
  by (induction al) auto

lemma createScheduledEmail_appends:
  assumes "wf_store st"
  shows "scheduledEmails (snd (createScheduledEmail now insertEmail st)) =
         scheduledEmails st @ [(currentScheduledEmailId st, fst (createScheduledEmail now insertEmail st))]"
proof -
  have "currentScheduledEmailId st \<notin> fst ` set (scheduledEmails st)"
    using assms by (fastforce simp: wf_store_def)
  then show ?thesis
    by (simp add: createScheduledEmail_def Let_def update_fresh)
qed

lemma updateScheduledEmail_keys:
  "map fst (scheduledEmails (snd (updateScheduledEmail i u st))) = map fst (scheduledEmails st)"
  by (simp add: updateScheduledEmail_def Let_def update_keys map_of_eq_None_iff image_iff
      split: option.splits)

section \<open>Facts about dispatch\<close>

lemma updateScheduledEmail_frame [simp]:
  "clients (snd (updateScheduledEmail i u st)) = clients st"
  "emailTemplates (snd (updateScheduledEmail i u st)) = emailTemplates st"
  "emailLogs (snd (updateScheduledEmail i u st)) = emailLogs st"
  "currentLogId (snd (updateScheduledEmail i u st)) = currentLogId st"
  "currentClientId (snd (updateScheduledEmail i u st)) = currentClientId st"
  "currentTemplateId (snd (updateScheduledEmail i u st)) = currentTemplateId st"
  "currentScheduledEmailId (snd (updateScheduledEmail i u st)) = currentScheduledEmailId st"
  by (simp_all add: updateScheduledEmail_def Let_def split: option.split)

lemma updateScheduledEmail_lookup:
  "getScheduledEmail k (snd (updateScheduledEmail i u st)) =
     (if k = i then map_option (\<lambda>existing. spread_update existing u) (getScheduledEmail i st)
      else getScheduledEmail k st)"
  by (simp add: updateScheduledEmail_def getScheduledEmail_def Let_def update_conv'
      split: option.split)

lemma updateScheduledEmail_found:
  "getScheduledEmail i st = Some existing \<Longrightarrow>
   snd (updateScheduledEmail i u st) =
     st\<lparr>scheduledEmails := AList.update i (spread_update existing u) (scheduledEmails st)\<rparr>"
  by (simp add: updateScheduledEmail_def getScheduledEmail_def Let_def)

lemma createEmailLog_frame [simp]:
  "clients (snd (createEmailLog now insertLog st)) = clients st"
  "emailTemplates (snd (createEmailLog now insertLog st)) = emailTemplates st"
  "scheduledEmails (snd (createEmailLog now insertLog st)) = scheduledEmails st"
  "currentClientId (snd (createEmailLog now insertLog st)) = currentClientId st"
  "currentTemplateId (snd (createEmailLog now insertLog st)) = currentTemplateId st"
  "currentScheduledEmailId (snd (createEmailLog now insertLog st)) = currentScheduledEmailId st"
  "currentLogId (snd (createEmailLog now insertLog st)) = currentLogId st + 1"
  by (simp_all add: createEmailLog_def Let_def)

lemma createEmailLog_logs:
  "emailLogs (snd (createEmailLog now insertLog st)) =
     AList.update (currentLogId st) (fst (createEmailLog now insertLog st)) (emailLogs st)"
  by (simp add: createEmailLog_def Let_def)

lemma incrementTemplateUsage_frame [simp]:
  "clients (incrementTemplateUsage i st) = clients st"
  "scheduledEmails (incrementTemplateUsage i st) = scheduledEmails st"
  "emailLogs (incrementTemplateUsage i st) = emailLogs st"
  "currentClientId (incrementTemplateUsage i st) = currentClientId st"
  "currentTemplateId (incrementTemplateUsage i st) = currentTemplateId st"
  "currentScheduledEmailId (incrementTemplateUsage i st) = currentScheduledEmailId st"
  "currentLogId (incrementTemplateUsage i st) = currentLogId st"
  by (simp_all add: incrementTemplateUsage_def split: option.split)

lemma incrementTemplateUsage_lookup:
  "getEmailTemplate k (incrementTemplateUsage i st) =
     (if k = i
      then map_option
             (\<lambda>template. template\<lparr>t_usageCount :=
                Some ((case t_usageCount template of None \<Rightarrow> 0 | Some n \<Rightarrow> n) + 1)\<rparr>)
             (getEmailTemplate i st)
      else getEmailTemplate k st)"
  by (simp add: incrementTemplateUsage_def getEmailTemplate_def update_conv' split: option.split)

lemma getScheduledEmail_frame [simp]:
  "getScheduledEmail k (snd (createEmailLog now insertLog st)) = getScheduledEmail k st"
  "getScheduledEmail k (incrementTemplateUsage i st) = getScheduledEmail k st"
  by (simp_all add: getScheduledEmail_def)

lemma getEmailTemplate_frame [simp]:
  "getEmailTemplate k (snd (createEmailLog now insertLog st)) = getEmailTemplate k st"
  "getEmailTemplate k (snd (updateScheduledEmail i u st)) = getEmailTemplate k st"
  by (simp_all add: getEmailTemplate_def)

lemma getClient_frame [simp]:
  "getClient k (snd (createEmailLog now insertLog st)) = getClient k st"
  "getClient k (snd (updateScheduledEmail i u st)) = getClient k st"
  "getClient k (incrementTemplateUsage i st) = getClient k st"
  by (simp_all add: getClient_def)

text \<open>The seven ways through \<open>sendScheduledEmail\<close>.\<close>

lemma send_not_found:
  assumes "getClient (e_clientId e) st = None \<or> getEmailTemplate (e_templateId e) st = None"
  shows "sendScheduledEmail sv now e st =
     Inr (snd (updateScheduledEmail (e_id e) (failed_with ''Client or template not found'') st), [])"
  using assms
  by (auto simp: sendScheduledEmail_def sendScheduledEmail_try_def split: option.split)

lemma send_no_content:
  assumes "getClient (e_clientId e) st = Some c" and "getEmailTemplate (e_templateId e) st = Some t"
    and "\<not> truthy (subject_of t (language_of e c)) \<or> \<not> truthy (content_of t (language_of e c))"
  shows "sendScheduledEmail sv now e st =
     Inr (snd (updateScheduledEmail (e_id e)
                 (failed_with (''Template content not available for language: '' @ language_of e c))
                 st), [])"
  using assms
  by (auto simp: sendScheduledEmail_def sendScheduledEmail_try_def Let_def)

lemma send_subject_thrown:
  assumes "getClient (e_clientId e) st = Some c" and "getEmailTemplate (e_templateId e) st = Some t"
    and "truthy (subject_of t (language_of e c))" and "truthy (content_of t (language_of e c))"
    and "personalizeContent sv (subject_of t (language_of e c)) (variables sv c) = Inl err"
  shows "sendScheduledEmail sv now e st =
     Inr (snd (updateScheduledEmail (e_id e) (failed_with (thrown_message err)) st), [])"
  using assms
  by (simp add: sendScheduledEmail_def sendScheduledEmail_try_def Let_def)

lemma send_content_thrown:
  assumes "getClient (e_clientId e) st = Some c" and "getEmailTemplate (e_templateId e) st = Some t"
    and "truthy (subject_of t (language_of e c))" and "truthy (content_of t (language_of e c))"
    and "personalizeContent sv (subject_of t (language_of e c)) (variables sv c) = Inr subject"
    and "personalizeContent sv (content_of t (language_of e c)) (variables sv c) = Inl err"
  shows "sendScheduledEmail sv now e st =
     Inr (snd (updateScheduledEmail (e_id e) (failed_with (thrown_message err)) st), [])"
  using assms
  by (simp add: sendScheduledEmail_def sendScheduledEmail_try_def Let_def)

lemma send_thrown:
  assumes "getClient (e_clientId e) st = Some c" and "getEmailTemplate (e_templateId e) st = Some t"
    and "truthy (subject_of t (language_of e c))" and "truthy (content_of t (language_of e c))"
    and "personalizeContent sv (subject_of t (language_of e c)) (variables sv c) = Inr subject"
    and "personalizeContent sv (content_of t (language_of e c)) (variables sv c) = Inr content"
    and "sendEmail sv (mail_of c subject content) = Inl err"
  shows "sendScheduledEmail sv now e st =
     Inr (snd (updateScheduledEmail (e_id e) (failed_with (thrown_message err)) st),
          [mail_of c subject content])"
  using assms
  by (simp add: sendScheduledEmail_def sendScheduledEmail_try_def Let_def)

lemma send_refused:
  assumes "getClient (e_clientId e) st = Some c" and "getEmailTemplate (e_templateId e) st = Some t"
    and "truthy (subject_of t (language_of e c))" and "truthy (content_of t (language_of e c))"
    and "personalizeContent sv (subject_of t (language_of e c)) (variables sv c) = Inr subject"
    and "personalizeContent sv (content_of t (language_of e c)) (variables sv c) = Inr content"
    and "sendEmail sv (mail_of c subject content) = Inr False"
  shows "sendScheduledEmail sv now e st =
     Inr (snd (updateScheduledEmail (e_id e) (failed_with ''Failed to send email via SendGrid'') st),
          [mail_of c subject content])"
  using assms
  by (simp add: sendScheduledEmail_def sendScheduledEmail_try_def Let_def)

lemma send_accepted:
  assumes "getClient (e_clientId e) st = Some c" and "getEmailTemplate (e_templateId e) st = Some t"
    and "truthy (subject_of t (language_of e c))" and "truthy (content_of t (language_of e c))"
    and "personalizeContent sv (subject_of t (language_of e c)) (variables sv c) = Inr subject"
    and "personalizeContent sv (content_of t (language_of e c)) (variables sv c) = Inr content"
    and "sendEmail sv (mail_of c subject content) = Inr True"
  shows "sendScheduledEmail sv now e st =
     Inr (incrementTemplateUsage (t_id t)
            (snd (createEmailLog now
                    \<lparr>il_clientId = c_id c,
                     il_templateId = Some (t_id t),
                     il_scheduledEmailId = Some (e_id e),
                     il_subject = subject,
                     il_status = ''sent'',
                     il_language = language_of e c,
                     il_errorMessage = None\<rparr>
                    (snd (updateScheduledEmail (e_id e) (sent_with now subject content) st)))),
          [mail_of c subject content])"
  using assms
  by (simp add: sendScheduledEmail_def sendScheduledEmail_try_def Let_def)

lemma wf_store_lookups:
  assumes "wf_store st"
  shows "getClient k st = Some c \<Longrightarrow> c_id c = k"
    and "getEmailTemplate k st = Some t \<Longrightarrow> t_id t = k \<and> k \<noteq> 0"
    and "getScheduledEmail k st = Some e \<Longrightarrow> e_id e = k \<and> k \<noteq> 0"
    and "currentLogId st \<notin> fst ` set (emailLogs st)"
proof -
  show "getClient k st = Some c \<Longrightarrow> c_id c = k"
    using assms by (auto simp: wf_store_def getClient_def dest!: map_of_SomeD)
  show "getEmailTemplate k st = Some t \<Longrightarrow> t_id t = k \<and> k \<noteq> 0"
    using assms by (auto simp: wf_store_def getEmailTemplate_def dest!: map_of_SomeD)
  show "getScheduledEmail k st = Some e \<Longrightarrow> e_id e = k \<and> k \<noteq> 0"
    using assms by (auto simp: wf_store_def getScheduledEmail_def dest!: map_of_SomeD)
  show "currentLogId st \<notin> fst ` set (emailLogs st)"
    using assms by (fastforce simp: wf_store_def)
qed

lemma value_or_truthy_at:
  "value_or (property r language) (value_or (property r primary) (Str [])) =
     (if truthy_at r language then the (property r language)
      else if truthy_at r primary then the (property r primary)
      else Str [])"
  by (auto simp: value_or_def truthy_at_def split: option.splits)

lemma truthy_value_or:
  "truthy (value_or (property r language) (value_or (property r primary) (Str []))) \<longleftrightarrow>
     truthy_at r language \<or> truthy_at r primary"
  by (auto simp: value_or_def truthy_at_def truthy_def split: option.splits)

lemma spread_failed:
  "spread_update e (failed_with msg) = e\<lparr>e_status := ''failed'', e_errorMessage := Some msg\<rparr>"
  by (simp add: spread_update_def failed_with_def no_fields_def override_def)

lemma spread_sent:
  "spread_update e (sent_with now subject content) =
     e\<lparr>e_status := ''sent'', e_sentAt := Some now,
       e_personalizedSubject := Some subject, e_personalizedContent := Some content\<rparr>"
  by (simp add: spread_update_def sent_with_def no_fields_def override_def)

lemma send_cases
  [case_names not_found no_content subject_thrown content_thrown thrown refused accepted]:
  obtains
    "getClient (e_clientId e) st = None \<or> getEmailTemplate (e_templateId e) st = None"
  | c t where "getClient (e_clientId e) st = Some c" "getEmailTemplate (e_templateId e) st = Some t"
      "\<not> truthy (subject_of t (language_of e c)) \<or> \<not> truthy (content_of t (language_of e c))"
  | c t err where "getClient (e_clientId e) st = Some c"
      "getEmailTemplate (e_templateId e) st = Some t"
      "truthy (subject_of t (language_of e c))" "truthy (content_of t (language_of e c))"
      "personalizeContent sv (subject_of t (language_of e c)) (variables sv c) = Inl err"
  | c t subject err where "getClient (e_clientId e) st = Some c"
      "getEmailTemplate (e_templateId e) st = Some t"
      "truthy (subject_of t (language_of e c))" "truthy (content_of t (language_of e c))"
      "personalizeContent sv (subject_of t (language_of e c)) (variables sv c) = Inr subject"
      "personalizeContent sv (content_of t (language_of e c)) (variables sv c) = Inl err"
  | c t subject content err where "getClient (e_clientId e) st = Some c"
      "getEmailTemplate (e_templateId e) st = Some t"
      "truthy (subject_of t (language_of e c))" "truthy (content_of t (language_of e c))"
      "personalizeContent sv (subject_of t (language_of e c)) (variables sv c) = Inr subject"
      "personalizeContent sv (content_of t (language_of e c)) (variables sv c) = Inr content"
      "sendEmail sv (mail_of c subject content) = Inl err"
  | c t subject content where "getClient (e_clientId e) st = Some c"
      "getEmailTemplate (e_templateId e) st = Some t"
      "truthy (subject_of t (language_of e c))" "truthy (content_of t (language_of e c))"
      "personalizeContent sv (subject_of t (language_of e c)) (variables sv c) = Inr subject"
      "personalizeContent sv (content_of t (language_of e c)) (variables sv c) = Inr content"
      "sendEmail sv (mail_of c subject content) = Inr False"
  | c t subject content where "getClient (e_clientId e) st = Some c"
      "getEmailTemplate (e_templateId e) st = Some t"
      "truthy (subject_of t (language_of e c))" "truthy (content_of t (language_of e c))"
      "personalizeContent sv (subject_of t (language_of e c)) (variables sv c) = Inr subject"
      "personalizeContent sv (content_of t (language_of e c)) (variables sv c) = Inr content"
      "sendEmail sv (mail_of c subject content) = Inr True"
proof (cases "getClient (e_clientId e) st")
  case None
  then show ?thesis using that(1) by simp
next
  case c: (Some c)
  show ?thesis
  proof (cases "getEmailTemplate (e_templateId e) st")
    case None
    then show ?thesis using that(1) by simp
  next
    case t: (Some t)
    show ?thesis
    proof (cases "\<not> truthy (subject_of t (language_of e c)) \<or>
        \<not> truthy (content_of t (language_of e c))")
      case True
      then show ?thesis using that(2) c t by blast
    next
      case False
      then have ne: "truthy (subject_of t (language_of e c))"
        "truthy (content_of t (language_of e c))"
        by simp_all
      show ?thesis
      proof (cases "personalizeContent sv (subject_of t (language_of e c)) (variables sv c)")
        case (Inl err)
        then show ?thesis using that(3) c t ne by blast
      next
        case s: (Inr subject)
        show ?thesis
        proof (cases "personalizeContent sv (content_of t (language_of e c)) (variables sv c)")
          case (Inl err)
          then show ?thesis using that(4) c t ne s by blast
        next
          case b: (Inr content)
          show ?thesis
          proof (cases "sendEmail sv (mail_of c subject content)")
            case (Inl err)
            then show ?thesis using that(5) c t ne s b by blast
          next
            case (Inr ok)
            show ?thesis
            proof (cases ok)
              case True
              with Inr have "sendEmail sv (mail_of c subject content) = Inr True" by simp
              then show ?thesis using that(7) c t ne s b by blast
            next
              case False
              with Inr have "sendEmail sv (mail_of c subject content) = Inr False" by simp
              then show ?thesis using that(6) c t ne s b by blast
            qed
          qed
        qed
      qed
    qed
  qed
qed

text \<open>
  Seen from the store, there are two: the record is marked failed and nothing else is
  written, or it is marked sent, logged and counted.
\<close>

lemma send_two [case_names failed accepted]:
  obtains msg calls where
      "sendScheduledEmail sv now e st =
         Inr (snd (updateScheduledEmail (e_id e) (failed_with msg) st), calls)"
      "outcome_update sv now e st = failed_with msg"
  | c t subject content where "getClient (e_clientId e) st = Some c"
      "getEmailTemplate (e_templateId e) st = Some t"
      "truthy (subject_of t (language_of e c))" "truthy (content_of t (language_of e c))"
      "personalizeContent sv (subject_of t (language_of e c)) (variables sv c) = Inr subject"
      "personalizeContent sv (content_of t (language_of e c)) (variables sv c) = Inr content"
      "sendEmail sv (mail_of c subject content) = Inr True"
      "outcome_update sv now e st = sent_with now subject content"
proof (cases rule: send_cases [where e = e and st = st and sv = sv])
  case not_found
  then have "outcome_update sv now e st = failed_with ''Client or template not found''"
    by (auto simp: outcome_update_def split: option.split)
  with send_not_found [OF not_found] show ?thesis by (rule that(1))
next
  case (no_content c t)
  then have "outcome_update sv now e st =
      failed_with (''Template content not available for language: '' @ language_of e c)"
    by (auto simp: outcome_update_def)
  with send_no_content [OF no_content] show ?thesis by (rule that(1))
next
  case (subject_thrown c t err)
  then have "outcome_update sv now e st = failed_with (thrown_message err)"
    by (simp add: outcome_update_def)
  with send_subject_thrown [OF subject_thrown] show ?thesis by (rule that(1))
next
  case (content_thrown c t subject err)
  then have "outcome_update sv now e st = failed_with (thrown_message err)"
    by (simp add: outcome_update_def)
  with send_content_thrown [OF content_thrown] show ?thesis by (rule that(1))
next
  case (thrown c t subject content err)
  then have "outcome_update sv now e st = failed_with (thrown_message err)"
    by (simp add: outcome_update_def)
  with send_thrown [OF thrown] show ?thesis by (rule that(1))
next
  case (refused c t subject content)
  then have "outcome_update sv now e st = failed_with ''Failed to send email via SendGrid''"
    by (simp add: outcome_update_def)
  with send_refused [OF refused] show ?thesis by (rule that(1))
next
  case (accepted c t subject content)
  then have "outcome_update sv now e st = sent_with now subject content"
    by (simp add: outcome_update_def)
  with accepted show ?thesis by (rule that(2))
qed

lemma send_run:
  "sendScheduledEmail sv now e st =
     Inr (store_after (sendScheduledEmail sv now e st), calls_of (sendScheduledEmail sv now e st))"
proof (cases rule: send_two [where e = e and st = st and sv = sv and now = now])
  case (failed msg calls)
  show ?thesis by (simp add: failed(1) store_after_def calls_of_def)
next
  case (accepted c t subject content)
  show ?thesis by (simp add: send_accepted [OF accepted(1-7)] store_after_def calls_of_def)
qed

lemma send_stored:
  "getScheduledEmail k (store_after (sendScheduledEmail sv now e st)) =
     (if k = e_id e
      then map_option (\<lambda>existing. spread_update existing (outcome_update sv now e st))
             (getScheduledEmail k st)
      else getScheduledEmail k st)"
proof (cases rule: send_two [where e = e and st = st and sv = sv and now = now])
  case (failed msg calls)
  show ?thesis
    by (simp add: failed store_after_def updateScheduledEmail_lookup)
next
  case (accepted c t subject content)
  show ?thesis
    by (simp add: send_accepted [OF accepted(1-7)] accepted(8) store_after_def
        updateScheduledEmail_lookup)
qed

lemma same_directory_refl: "same_directory st st"
  by (simp add: same_directory_def)

lemma same_directory_trans:
  "same_directory st st1 \<Longrightarrow> same_directory st1 st2 \<Longrightarrow> same_directory st st2"
  by (simp add: same_directory_def)

lemma same_directory_update: "same_directory st (snd (updateScheduledEmail i u st))"
  by (simp add: same_directory_def)

lemma template_view_usage: "template_view (t\<lparr>t_usageCount := n\<rparr>) = template_view t"
  by (simp add: template_view_def)

lemma send_directory: "same_directory st (store_after (sendScheduledEmail sv now e st))"
proof (cases rule: send_two [where e = e and st = st and sv = sv and now = now])
  case (failed msg calls)
  show ?thesis
    by (simp add: failed(1) store_after_def same_directory_update)
next
  case (accepted c t subject content)
  show ?thesis
    by (simp add: send_accepted [OF accepted(1-7)] store_after_def same_directory_def
        incrementTemplateUsage_lookup template_view_usage option.map_comp comp_def)
qed

lemma template_view_reads:
  assumes "template_view t' = template_view t"
  shows "subject_of t' = subject_of t" and "content_of t' = content_of t"
proof -
  from assms have f: "t_subject t' = t_subject t" "t_content t' = t_content t"
    "t_primaryLanguage t' = t_primaryLanguage t"
    by (simp_all add: template_view_def)
  show "subject_of t' = subject_of t" by (rule ext) (simp add: subject_of_def f)
  show "content_of t' = content_of t" by (rule ext) (simp add: content_of_def f)
qed

lemma same_directory_lookups:
  assumes "same_directory st st'"
  shows "getClient k st' = getClient k st"
    and "getEmailTemplate k st = None \<Longrightarrow> getEmailTemplate k st' = None"
    and "getEmailTemplate k st = Some t \<Longrightarrow>
         \<exists>t'. getEmailTemplate k st' = Some t' \<and> subject_of t' = subject_of t \<and>
              content_of t' = content_of t \<and> t_id t' = t_id t"
proof -
  show "getClient k st' = getClient k st"
    using assms by (simp add: same_directory_def getClient_def)
  from assms have v: "map_option template_view (getEmailTemplate k st') =
      map_option template_view (getEmailTemplate k st)"
    by (simp add: same_directory_def)
  show "getEmailTemplate k st' = None" if "getEmailTemplate k st = None"
    using v that by simp
  show "\<exists>t'. getEmailTemplate k st' = Some t' \<and> subject_of t' = subject_of t \<and>
      content_of t' = content_of t \<and> t_id t' = t_id t"
    if "getEmailTemplate k st = Some t"
  proof -
    from v that obtain t' where t': "getEmailTemplate k st' = Some t'"
      and w: "template_view t' = template_view t"
      by (cases "getEmailTemplate k st'") auto
    from w have "t_id t' = t_id t" by (simp add: template_view_def)
    with t' template_view_reads [OF w] show ?thesis by simp
  qed
qed

lemma outcome_update_directory:
  assumes "same_directory st st'"
  shows "outcome_update sv now e st' = outcome_update sv now e st"
proof -
  note l = same_directory_lookups [OF assms]
  show ?thesis
  proof (cases "getEmailTemplate (e_templateId e) st")
    case None
    with l(2) have "getEmailTemplate (e_templateId e) st' = None" by simp
    with None l(1) show ?thesis by (simp add: outcome_update_def split: option.split)
  next
    case (Some t)
    from l(3) [OF this] obtain t' where t': "getEmailTemplate (e_templateId e) st' = Some t'"
      and r: "subject_of t' = subject_of t" "content_of t' = content_of t"
      by auto
    show ?thesis
      unfolding outcome_update_def l(1) Some t' option.case r ..
  qed
qed

text \<open>The messages of a dispatch depend on the clients and templates only.\<close>

lemma send_calls_directory:
  assumes "same_directory st st'"
  shows "calls_of (sendScheduledEmail sv now e st') = calls_of (sendScheduledEmail sv now e st)"
proof -
  note l = same_directory_lookups [OF assms]
  have c': "getClient (e_clientId e) st' = Some c" if "getClient (e_clientId e) st = Some c" for c
    using l(1) that by simp
  show ?thesis
  proof (cases rule: send_cases [where e = e and st = st and sv = sv])
    case not_found
    then have "getClient (e_clientId e) st' = None \<or> getEmailTemplate (e_templateId e) st' = None"
      using l(1,2) by auto
    from send_not_found [OF this] send_not_found [OF not_found] show ?thesis
      by (simp add: calls_of_def)
  next
    case (no_content c t)
    from l(3) [OF no_content(2)] obtain t' where t': "getEmailTemplate (e_templateId e) st' = Some t'"
      and r: "subject_of t' = subject_of t" "content_of t' = content_of t"
      by auto
    from send_no_content [OF c' [OF no_content(1)] t'] no_content(3)
      send_no_content [OF no_content] show ?thesis
      by (simp add: calls_of_def r)
  next
    case (subject_thrown c t err)
    from l(3) [OF subject_thrown(2)] obtain t'
      where t': "getEmailTemplate (e_templateId e) st' = Some t'"
      and r: "subject_of t' = subject_of t" "content_of t' = content_of t"
      by auto
    from send_subject_thrown [OF c' [OF subject_thrown(1)] t'] subject_thrown(3-)
      send_subject_thrown [OF subject_thrown] show ?thesis
      by (simp add: calls_of_def r)
  next
    case (content_thrown c t subject err)
    from l(3) [OF content_thrown(2)] obtain t'
      where t': "getEmailTemplate (e_templateId e) st' = Some t'"
      and r: "subject_of t' = subject_of t" "content_of t' = content_of t"
      by auto
    from send_content_thrown [OF c' [OF content_thrown(1)] t'] content_thrown(3-)
      send_content_thrown [OF content_thrown] show ?thesis
      by (simp add: calls_of_def r)
  next
    case (thrown c t subject content err)
    from l(3) [OF thrown(2)] obtain t'
      where t': "getEmailTemplate (e_templateId e) st' = Some t'"
      and r: "subject_of t' = subject_of t" "content_of t' = content_of t"
      by auto
    from send_thrown [OF c' [OF thrown(1)] t'] thrown(3-)
      send_thrown [OF thrown] show ?thesis
      by (simp add: calls_of_def r)
  next
    case (refused c t subject content)
    from l(3) [OF refused(2)] obtain t'
      where t': "getEmailTemplate (e_templateId e) st' = Some t'"
      and r: "subject_of t' = subject_of t" "content_of t' = content_of t"
      by auto
    from send_refused [OF c' [OF refused(1)] t'] refused(3-)
      send_refused [OF refused] show ?thesis
      by (simp add: calls_of_def r)
  next
    case (accepted c t subject content)
    from l(3) [OF accepted(2)] obtain t'
      where t': "getEmailTemplate (e_templateId e) st' = Some t'"
      and r: "subject_of t' = subject_of t" "content_of t' = content_of t"
      by auto
    from send_accepted [OF c' [OF accepted(1)] t'] accepted(3-)
      send_accepted [OF accepted] show ?thesis
      by (simp add: calls_of_def r)
  qed
qed

lemma set_update_subset: "set (AList.update k v al) \<subseteq> insert (k, v) (set al)"
  by (induction al) auto

lemma send_logs:
  assumes "(i, l) \<in> set (emailLogs (store_after (sendScheduledEmail sv now e st)))"
  shows "(i, l) \<in> set (emailLogs st) \<or> l_scheduledEmailId l = num_or_null (Some (e_id e))"
proof (cases rule: send_two [where e = e and st = st and sv = sv and now = now])
  case (failed msg calls)
  with assms show ?thesis by (simp add: store_after_def)
next
  case (accepted c t subject content)
  from assms have "(i, l) \<in> set (AList.update (currentLogId st)
      (fst (createEmailLog now
              \<lparr>il_clientId = c_id c, il_templateId = Some (t_id t),
               il_scheduledEmailId = Some (e_id e),
               il_subject = subject, il_status = ''sent'',
               il_language = language_of e c, il_errorMessage = None\<rparr>
              (snd (updateScheduledEmail (e_id e) (sent_with now subject content) st))))
      (emailLogs st))"
    by (simp add: send_accepted [OF accepted(1-7)] store_after_def createEmailLog_logs)
  with set_update_subset show ?thesis
    by (fastforce simp: createEmailLog_def Let_def)
qed

lemma send_each_Cons:
  "send_each sv now (e # es) st calls =
     send_each sv now es (store_after (sendScheduledEmail sv now e st))
       (calls @ calls_of (sendScheduledEmail sv now e st))"
proof -
  define st1 where "st1 = store_after (sendScheduledEmail sv now e st)"
  define c1 where "c1 = calls_of (sendScheduledEmail sv now e st)"
  have r: "sendScheduledEmail sv now e st = Inr (st1, c1)"
    unfolding st1_def c1_def by (rule send_run)
  show ?thesis
    unfolding st1_def [symmetric] c1_def [symmetric] by (simp add: r)
qed

lemma send_each_run:
  "send_each sv now es st calls =
     Inr (store_after (send_each sv now es st calls), calls_of (send_each sv now es st calls))"
proof (induction es arbitrary: st calls)
  case Nil
  show ?case by (simp add: store_after_def calls_of_def)
next
  case (Cons e es)
  show ?case unfolding send_each_Cons by (rule Cons.IH)
qed

lemma send_each_other:
  "k \<notin> e_id ` set es \<Longrightarrow>
   getScheduledEmail k (store_after (send_each sv now es st calls)) = getScheduledEmail k st"
proof (induction es arbitrary: st calls)
  case Nil
  show ?case by (simp add: store_after_def)
next
  case (Cons e es)
  then show ?case unfolding send_each_Cons by (simp add: send_stored)
qed

lemma send_each_directory: "same_directory st (store_after (send_each sv now es st calls))"
proof (induction es arbitrary: st calls)
  case Nil
  show ?case by (simp add: store_after_def same_directory_refl)
next
  case (Cons e es)
  show ?case
    unfolding send_each_Cons
    by (rule same_directory_trans [OF send_directory Cons.IH])
qed

lemma send_each_isolated:
  assumes "distinct (map e_id es)" and "e \<in> set es"
  shows "getScheduledEmail (e_id e) (store_after (send_each sv now es st calls)) =
         getScheduledEmail (e_id e) (store_after (sendScheduledEmail sv now e st))"
  using assms
proof (induction es arbitrary: st calls)
  case Nil
  then show ?case by simp
next
  case (Cons x es)
  let ?st1 = "store_after (sendScheduledEmail sv now x st)"
  show ?case
  proof (cases "e = x")
    case True
    with Cons.prems have "e_id e \<notin> e_id ` set es" by auto
    then show ?thesis
      unfolding send_each_Cons using True by (simp add: send_each_other)
  next
    case False
    with Cons.prems have e: "e \<in> set es" and d: "distinct (map e_id es)"
      and x: "e_id x \<notin> e_id ` set es"
      by auto
    from e x have ne: "e_id e \<noteq> e_id x" by (metis imageI)
    have "getScheduledEmail (e_id e) (store_after (send_each sv now (x # es) st calls)) =
        getScheduledEmail (e_id e) (store_after (sendScheduledEmail sv now e ?st1))"
      unfolding send_each_Cons by (rule Cons.IH [OF d e])
    also have "\<dots> = map_option (\<lambda>existing. spread_update existing (outcome_update sv now e ?st1))
        (getScheduledEmail (e_id e) ?st1)"
      by (simp add: send_stored)
    also have "outcome_update sv now e ?st1 = outcome_update sv now e st"
      by (rule outcome_update_directory [OF send_directory])
    also have "getScheduledEmail (e_id e) ?st1 = getScheduledEmail (e_id e) st"
      using ne by (simp add: send_stored)
    also have "map_option (\<lambda>existing. spread_update existing (outcome_update sv now e st))
        (getScheduledEmail (e_id e) st) =
        getScheduledEmail (e_id e) (store_after (sendScheduledEmail sv now e st))"
      by (simp add: send_stored)
    finally show ?thesis .
  qed
qed

lemma send_each_logs:
  "(i, l) \<in> set (emailLogs (store_after (send_each sv now es st calls))) \<Longrightarrow>
   (i, l) \<in> set (emailLogs st) \<or> (\<exists>e \<in> set es. l_scheduledEmailId l = num_or_null (Some (e_id e)))"
proof (induction es arbitrary: st calls)
  case Nil
  then show ?case by (simp add: store_after_def)
next
  case (Cons x es)
  from Cons.prems have "(i, l) \<in> set (emailLogs (store_after (sendScheduledEmail sv now x st))) \<or>
      (\<exists>e \<in> set es. l_scheduledEmailId l = num_or_null (Some (e_id e)))"
    unfolding send_each_Cons by (rule Cons.IH)
  then show ?case using send_logs [of i l sv now x st] by auto
qed

lemma wf_store_values:
  assumes "wf_store st" and "e \<in> snd ` set (scheduledEmails st)"
  shows "getScheduledEmail (e_id e) st = Some e"
proof -
  from assms(2) obtain k where k: "(k, e) \<in> set (scheduledEmails st)" by auto
  with assms(1) have "e_id e = k" by (auto simp: wf_store_def)
  moreover from assms(1) k have "map_of (scheduledEmails st) k = Some e"
    by (simp add: wf_store_def)
  ultimately show ?thesis by (simp add: getScheduledEmail_def)
qed

lemma wf_store_ids_distinct:
  assumes "wf_store st"
  shows "distinct (map e_id (map snd (scheduledEmails st)))"
proof -
  have eq: "map e_id (map snd (scheduledEmails st)) = map fst (scheduledEmails st)"
    using assms by (auto simp: wf_store_def)
  have d: "distinct (map fst (scheduledEmails st))"
    using assms by (simp add: wf_store_def)
  show ?thesis unfolding eq by (rule d)
qed

lemma pending_set:
  "set (getPendingScheduledEmails now st) =
     {e \<in> snd ` set (scheduledEmails st). e_status e = ''pending'' \<and> e_scheduledFor e \<le> now}"
  by (auto simp: getPendingScheduledEmails_def)

lemma distinct_map_insort:
  "distinct (map f (insort_key g x xs)) \<longleftrightarrow> f x \<notin> f ` set xs \<and> distinct (map f xs)"
  by (induction xs) (auto simp: set_insort_key)

lemma distinct_map_sort: "distinct (map f (sort_key g xs)) \<longleftrightarrow> distinct (map f xs)"
  by (induction xs) (simp_all add: distinct_map_insort)

lemma pending_ids_distinct:
  assumes "wf_store st"
  shows "distinct (map e_id (getPendingScheduledEmails now st))"
proof -
  let ?due = "filter (\<lambda>email. e_status email = ''pending'' \<and> e_scheduledFor email \<le> now)
      (map snd (scheduledEmails st))"
  have "distinct (map e_id ?due)"
    using wf_store_ids_distinct [OF assms] by (rule distinct_map_filter)
  then show ?thesis
    by (simp add: getPendingScheduledEmails_def distinct_map_sort)
qed

lemma processPendingEmails_run:
  "processPendingEmails sv now st =
     (store_after (send_each sv now (getPendingScheduledEmails now st) st []),
      calls_of (send_each sv now (getPendingScheduledEmails now st) st []))"
proof -
  define st1 where "st1 = store_after (send_each sv now (getPendingScheduledEmails now st) st [])"
  define c1 where "c1 = calls_of (send_each sv now (getPendingScheduledEmails now st) st [])"
  have r: "send_each sv now (getPendingScheduledEmails now st) st [] = Inr (st1, c1)"
    unfolding st1_def c1_def by (rule send_each_run)
  show ?thesis
    unfolding st1_def [symmetric] c1_def [symmetric] by (simp add: processPendingEmails_def r)
qed

text \<open>How a dispatch leaves the record it is given, by the way it takes.\<close>

lemma send_outcome:
  assumes "getScheduledEmail (e_id e) st = Some e"
  shows "\<exists>r. getScheduledEmail (e_id e) (store_after (sendScheduledEmail sv now e st)) = Some r \<and>
           (case getClient (e_clientId e) st of
              None \<Rightarrow>
                e_status r = ''failed'' \<and> e_errorMessage r = Some ''Client or template not found''
            | Some c \<Rightarrow>
           (case getEmailTemplate (e_templateId e) st of
              None \<Rightarrow>
                e_status r = ''failed'' \<and> e_errorMessage r = Some ''Client or template not found''
            | Some t \<Rightarrow>
                if truthy (subject_of t (language_of e c)) \<and> truthy (content_of t (language_of e c))
                then
                  (case personalizeContent sv (subject_of t (language_of e c)) (variables sv c) of
                     Inl err \<Rightarrow>
                       e_status r = ''failed'' \<and>
                       e_errorMessage r =
                         Some (case err of JsError msg \<Rightarrow> msg | Thrown \<Rightarrow> ''Unknown error'')
                   | Inr subject \<Rightarrow>
                  (case personalizeContent sv (content_of t (language_of e c)) (variables sv c) of
                     Inl err \<Rightarrow>
                       e_status r = ''failed'' \<and>
                       e_errorMessage r =
                         Some (case err of JsError msg \<Rightarrow> msg | Thrown \<Rightarrow> ''Unknown error'')
                   | Inr content \<Rightarrow>
                  (case sendEmail sv
                          \<lparr>m_to = c_email c, m_from = ''noreply@emailflow.app'',
                           m_subject = subject, m_html = content, m_text = stripTags content\<rparr> of
                     Inl err \<Rightarrow>
                       e_status r = ''failed'' \<and>
                       e_errorMessage r =
                         Some (case err of JsError msg \<Rightarrow> msg | Thrown \<Rightarrow> ''Unknown error'')
                   | Inr ok \<Rightarrow>
                       if ok
                       then e_status r = ''sent'' \<and> e_sentAt r = Some now \<and>
                            e_personalizedSubject r = Some subject \<and>
                            e_personalizedContent r = Some content \<and>
                            e_errorMessage r = e_errorMessage e
                       else e_status r = ''failed'' \<and>
                            e_errorMessage r = Some ''Failed to send email via SendGrid'')))
                else e_status r = ''failed'' \<and>
                     e_errorMessage r =
                       Some (''Template content not available for language: '' @ language_of e c)))"
proof (cases rule: send_cases [where e = e and st = st and sv = sv])
  case not_found
  then show ?thesis
    using assms
    by (auto simp: send_not_found [OF not_found] store_after_def
        updateScheduledEmail_lookup spread_failed split: option.split)
next
  case (no_content c t)
  show ?thesis
    using assms no_content
    by (auto simp: send_no_content [OF no_content] store_after_def
        updateScheduledEmail_lookup spread_failed)
next
  case (subject_thrown c t err)
  show ?thesis
    using assms subject_thrown
    by (simp add: send_subject_thrown [OF subject_thrown] store_after_def
        updateScheduledEmail_lookup spread_failed thrown_message_def)
next
  case (content_thrown c t subject err)
  show ?thesis
    using assms content_thrown
    by (simp add: send_content_thrown [OF content_thrown] store_after_def
        updateScheduledEmail_lookup spread_failed thrown_message_def)
next
  case (thrown c t subject content err)
  show ?thesis
    using assms thrown(1-6) thrown(7) [unfolded mail_of_def]
    by (simp add: send_thrown [OF thrown] store_after_def
        updateScheduledEmail_lookup spread_failed thrown_message_def)
next
  case (refused c t subject content)
  show ?thesis
    using assms refused(1-6) refused(7) [unfolded mail_of_def]
    by (simp add: send_refused [OF refused] store_after_def
        updateScheduledEmail_lookup spread_failed)
next
  case (accepted c t subject content)
  show ?thesis
    using assms accepted(1-6) accepted(7) [unfolded mail_of_def]
    by (simp add: send_accepted [OF accepted] store_after_def
        updateScheduledEmail_lookup spread_sent)
qed
text \<open>The messages of a tick are those of its dispatches, each alone, in order.\<close>

lemma send_each_calls:
  "calls_of (send_each sv now es st calls) =
     calls @ concat (map (\<lambda>e. calls_of (sendScheduledEmail sv now e st)) es)"
proof (induction es arbitrary: st calls)
  case Nil
  show ?case by (simp add: calls_of_def)
next
  case (Cons x es)
  let ?st1 = "store_after (sendScheduledEmail sv now x st)"
  have "calls_of (sendScheduledEmail sv now e ?st1) = calls_of (sendScheduledEmail sv now e st)"
    for e
    by (rule send_calls_directory [OF send_directory])
  then show ?case
    unfolding send_each_Cons by (simp add: Cons.IH)
qed

text \<open>The usage counts after a tick: one more for every dispatch that ends \<open>sent\<close>.\<close>

lemma usage_frame [simp]:
  "usage k (snd (updateScheduledEmail i u st)) = usage k st"
  "usage k (snd (createEmailLog now insertLog st)) = usage k st"
  by (simp_all add: usage_def)

lemma usage_increment:
  "usage k (incrementTemplateUsage i st) =
     (if k = i \<and> getEmailTemplate i st \<noteq> None then usage k st + 1 else usage k st)"
  by (auto simp: usage_def incrementTemplateUsage_lookup split: option.split)

lemma outcome_status:
  "u_status (outcome_update sv now e st) = Some ''sent'' \<or>
   u_status (outcome_update sv now e st) = Some ''failed''"
proof (cases rule: send_two [where e = e and st = st and sv = sv and now = now])
  case (failed msg calls)
  then show ?thesis by (simp add: failed_with_def no_fields_def)
next
  case (accepted c t subject content)
  then show ?thesis by (simp add: sent_with_def no_fields_def)
qed

lemma spread_status:
  "e_status (spread_update e u) = (case u_status u of None \<Rightarrow> e_status e | Some s \<Rightarrow> s)"
  by (simp add: spread_update_def override_def split: option.split)

lemma send_usage:
  assumes "wf_store st"
  shows "usage k (store_after (sendScheduledEmail sv now e st)) =
     usage k st +
     (if e_templateId e = k \<and> u_status (outcome_update sv now e st) = Some ''sent''
      then 1 else 0)"
proof (cases rule: send_two [where e = e and st = st and sv = sv and now = now])
  case (failed msg calls)
  show ?thesis
    by (simp add: failed store_after_def failed_with_def no_fields_def)
next
  case (accepted c t subject content)
  from wf_store_lookups(2) [OF assms accepted(2)] have i: "t_id t = e_templateId e" by simp
  show ?thesis
    using accepted(2)
    by (simp add: send_accepted [OF accepted(1-7)] accepted(8) store_after_def i
        usage_increment sent_with_def no_fields_def)
qed

lemma insort_key_ties:
  fixes f g :: "'a \<Rightarrow> int"
  assumes "sorted_wrt (\<lambda>a b. f a < f b \<or> (f a = f b \<and> g a < g b)) zs"
    and "\<forall>z \<in> set zs. g y < g z"
  shows "sorted_wrt (\<lambda>a b. f a < f b \<or> (f a = f b \<and> g a < g b)) (insort_key f y zs)"
  using assms
proof (induction zs)
  case Nil
  show ?case by simp
next
  case (Cons z zs)
  show ?case
  proof (cases "f y \<le> f z")
    case True
    have "f y < f w \<or> (f y = f w \<and> g y < g w)" if "w \<in> set (z # zs)" for w
    proof -
      from that Cons.prems(1) have "f z \<le> f w" by auto
      with True have "f y \<le> f w" by simp
      moreover from that Cons.prems(2) have "g y < g w" by auto
      ultimately show ?thesis by auto
    qed
    with True Cons.prems(1) show ?thesis by simp
  next
    case False
    then have "f z < f y" by simp
    moreover have "sorted_wrt (\<lambda>a b. f a < f b \<or> (f a = f b \<and> g a < g b)) (insort_key f y zs)"
      using Cons.prems by (intro Cons.IH) simp_all
    ultimately show ?thesis
      using False Cons.prems(1) by (auto simp: set_insort_key)
  qed
qed

lemma sort_key_ties:
  fixes f g :: "'a \<Rightarrow> int"
  assumes "sorted_wrt (\<lambda>a b. g a < g b) ys"
  shows "sorted_wrt (\<lambda>a b. f a < f b \<or> (f a = f b \<and> g a < g b)) (sort_key f ys)"
  using assms
proof (induction ys)
  case Nil
  show ?case by simp
next
  case (Cons y ys)
  then have "sorted_wrt (\<lambda>a b. f a < f b \<or> (f a = f b \<and> g a < g b)) (sort_key f ys)"
    and "\<forall>z \<in> set (sort_key f ys). g y < g z"
    by simp_all
  then show ?case
    unfolding sort_key_simps by (rule insort_key_ties)
qed

lemma wf_store_ids_ascending:
  assumes "wf_store st"
  shows "sorted_wrt (\<lambda>a b. e_id a < e_id b) (map snd (scheduledEmails st))"
proof -
  have eq: "map e_id (map snd (scheduledEmails st)) = map fst (scheduledEmails st)"
    using assms by (auto simp: wf_store_def)
  have "sorted_wrt (<) (map e_id (map snd (scheduledEmails st)))"
    unfolding eq using assms by (simp add: wf_store_def)
  then show ?thesis by (simp only: sorted_wrt_map)
qed

lemma pending_order:
  assumes "wf_store st"
  shows "sorted_wrt due_before (getPendingScheduledEmails now st)"
proof -
  have "sorted_wrt (\<lambda>a b. e_id a < e_id b)
      (filter (\<lambda>email. e_status email = ''pending'' \<and> e_scheduledFor email \<le> now)
         (map snd (scheduledEmails st)))"
    by (rule sorted_wrt_filter) (rule wf_store_ids_ascending [OF assms])
  from sort_key_ties [OF this, of e_scheduledFor]
  have "sorted_wrt (\<lambda>a b. e_scheduledFor a < e_scheduledFor b \<or>
        (e_scheduledFor a = e_scheduledFor b \<and> e_id a < e_id b))
      (getPendingScheduledEmails now st)"
    by (simp add: getPendingScheduledEmails_def)
  moreover have "due_before = (\<lambda>a b. e_scheduledFor a < e_scheduledFor b \<or>
        (e_scheduledFor a = e_scheduledFor b \<and> e_id a < e_id b))"
    by (intro ext) (simp add: due_before_def)
  ultimately show ?thesis by simp
qed

text \<open>The invariant holds of the empty store, and the operations keep it.\<close>

lemma update_entry:
  assumes "distinct (map fst al)" and "\<forall>(k, v) \<in> set al. P k v" and "P i w"
  shows "distinct (map fst (AList.update i w al))"
    and "\<forall>(k, v) \<in> set (AList.update i w al). P k v"
proof -
  show "distinct (map fst (AList.update i w al))"
    using assms(1) by (rule distinct_update)
  show "\<forall>(k, v) \<in> set (AList.update i w al). P k v"
    using assms(2,3) set_update_subset [of i w al] by auto
qed

lemma wf_store_new: "wf_store new_MemStorage"
  by (simp add: wf_store_def new_MemStorage_def)

lemma wf_store_createScheduledEmail:
  assumes "wf_store st"
  shows "wf_store (snd (createScheduledEmail now insertEmail st))"
proof -
  let ?i = "currentScheduledEmailId st"
  let ?P = "\<lambda>k e. e_id e = k \<and> 0 < k \<and> k < ?i + 1"
  have d: "distinct (map fst (scheduledEmails st))"
    and old: "\<forall>(k, e) \<in> set (scheduledEmails st). ?P k e"
    and pos: "0 < ?i"
    using assms by (auto simp: wf_store_def)
  have new: "?P ?i (fst (createScheduledEmail now insertEmail st))"
    using pos by (simp add: createScheduledEmail_def Let_def)
  note u = update_entry [where P = ?P, OF d old new]
  have below: "\<forall>k \<in> set (map fst (scheduledEmails st)). k < ?i"
    using assms by (auto simp: wf_store_def)
  then have "?i \<notin> fst ` set (scheduledEmails st)" by auto
  then have "map fst (AList.update ?i (fst (createScheduledEmail now insertEmail st))
      (scheduledEmails st)) = map fst (scheduledEmails st) @ [?i]"
    by (simp add: update_fresh)
  moreover have "sorted_wrt (<) (map fst (scheduledEmails st))"
    using assms by (simp add: wf_store_def)
  ultimately have asc: "sorted_wrt (<) (map fst (AList.update ?i
      (fst (createScheduledEmail now insertEmail st)) (scheduledEmails st)))"
    using below by (simp add: sorted_wrt_append)
  have s: "scheduledEmails (snd (createScheduledEmail now insertEmail st)) =
      AList.update ?i (fst (createScheduledEmail now insertEmail st)) (scheduledEmails st)"
    "currentScheduledEmailId (snd (createScheduledEmail now insertEmail st)) = ?i + 1"
    "clients (snd (createScheduledEmail now insertEmail st)) = clients st"
    "emailTemplates (snd (createScheduledEmail now insertEmail st)) = emailTemplates st"
    "emailLogs (snd (createScheduledEmail now insertEmail st)) = emailLogs st"
    "currentClientId (snd (createScheduledEmail now insertEmail st)) = currentClientId st"
    "currentTemplateId (snd (createScheduledEmail now insertEmail st)) = currentTemplateId st"
    "currentLogId (snd (createScheduledEmail now insertEmail st)) = currentLogId st"
    by (simp_all add: createScheduledEmail_def Let_def)
  show ?thesis
    unfolding wf_store_def s using assms u asc pos by (simp add: wf_store_def)
qed

lemma wf_store_updateScheduledEmail:
  assumes "wf_store st" and "u_id u = None"
  shows "wf_store (snd (updateScheduledEmail i u st))"
proof (cases "getScheduledEmail i st")
  case None
  then show ?thesis using assms(1) by (simp add: updateScheduledEmail_def getScheduledEmail_def)
next
  case (Some existing)
  let ?P = "\<lambda>k e. e_id e = k \<and> 0 < k \<and> k < currentScheduledEmailId st"
  have d: "distinct (map fst (scheduledEmails st))"
    and old: "\<forall>(k, e) \<in> set (scheduledEmails st). ?P k e"
    using assms(1) by (auto simp: wf_store_def)
  from Some have "(i, existing) \<in> set (scheduledEmails st)"
    by (simp add: getScheduledEmail_def map_of_SomeD)
  with old have "?P i existing" by auto
  then have new: "?P i (spread_update existing u)"
    using assms(2) by (simp add: spread_update_def override_def)
  note w = update_entry [where P = ?P, OF d old new]
  from Some have "i \<in> set (map fst (scheduledEmails st))"
    by (auto simp: getScheduledEmail_def dest!: map_of_SomeD intro: rev_image_eqI)
  then have keys: "map fst (AList.update i (spread_update existing u) (scheduledEmails st)) =
      map fst (scheduledEmails st)"
    by (simp add: update_keys)
  show ?thesis
    unfolding updateScheduledEmail_found [OF Some] wf_store_def
    using assms(1) w keys by (simp add: wf_store_def)
qed

lemma wf_store_createEmailLog:
  assumes "wf_store st"
  shows "wf_store (snd (createEmailLog now insertLog st))"
proof -
  let ?i = "currentLogId st"
  let ?P = "\<lambda>k l. l_id l = k \<and> 0 < k \<and> k < ?i + 1"
  have d: "distinct (map fst (emailLogs st))"
    and old: "\<forall>(k, l) \<in> set (emailLogs st). ?P k l"
    and pos: "0 < ?i"
    using assms by (auto simp: wf_store_def)
  have new: "?P ?i (fst (createEmailLog now insertLog st))"
    using pos by (simp add: createEmailLog_def Let_def)
  note w = update_entry [where P = ?P, OF d old new]
  show ?thesis
    unfolding wf_store_def createEmailLog_frame createEmailLog_logs
    using assms w pos by (simp add: wf_store_def)
qed

lemma wf_store_incrementTemplateUsage:
  assumes "wf_store st"
  shows "wf_store (incrementTemplateUsage i st)"
proof (cases "getEmailTemplate i st")
  case None
  then show ?thesis using assms by (simp add: incrementTemplateUsage_def getEmailTemplate_def)
next
  case (Some template)
  let ?P = "\<lambda>k t. t_id t = k \<and> 0 < k \<and> k < currentTemplateId st"
  let ?t = "template\<lparr>t_usageCount :=
      Some ((case t_usageCount template of None \<Rightarrow> 0 | Some n \<Rightarrow> n) + 1)\<rparr>"
  have d: "distinct (map fst (emailTemplates st))"
    and old: "\<forall>(k, t) \<in> set (emailTemplates st). ?P k t"
    using assms by (auto simp: wf_store_def)
  from Some have "(i, template) \<in> set (emailTemplates st)"
    by (simp add: getEmailTemplate_def map_of_SomeD)
  with old have "?P i template" by auto
  then have new: "?P i ?t" by simp
  note w = update_entry [where P = ?P, OF d old new]
  have s: "emailTemplates (incrementTemplateUsage i st) = AList.update i ?t (emailTemplates st)"
    using Some by (simp add: incrementTemplateUsage_def getEmailTemplate_def)
  show ?thesis
    unfolding wf_store_def incrementTemplateUsage_frame s
    using assms w by (simp add: wf_store_def)
qed

lemma wf_store_sendScheduledEmail:
  assumes "wf_store st"
  shows "wf_store (store_after (sendScheduledEmail sv now e st))"
proof (cases rule: send_two [where e = e and st = st and sv = sv and now = now])
  case (failed msg calls)
  show ?thesis
    by (simp add: failed(1) store_after_def wf_store_updateScheduledEmail
        assms failed_with_def no_fields_def)
next
  case (accepted c t subject content)
  show ?thesis
    by (simp add: send_accepted [OF accepted(1-7)] store_after_def wf_store_updateScheduledEmail
        wf_store_createEmailLog wf_store_incrementTemplateUsage assms sent_with_def
        no_fields_def)
qed

lemma wf_store_send_each:
  "wf_store st \<Longrightarrow> wf_store (store_after (send_each sv now es st calls))"
proof (induction es arbitrary: st calls)
  case Nil
  then show ?case by (simp add: store_after_def)
next
  case (Cons e es)
  show ?case
    unfolding send_each_Cons
    by (rule Cons.IH) (rule wf_store_sendScheduledEmail [OF Cons.prems])
qed

lemma wf_store_processPendingEmails:
  "wf_store st \<Longrightarrow> wf_store (fst (processPendingEmails sv now st))"
  by (simp add: processPendingEmails_run wf_store_send_each)

lemma send_each_usage:
  assumes "wf_store st"
  shows "usage k (store_after (send_each sv now es st calls)) =
     usage k st +
     int (length (filter (\<lambda>e. e_templateId e = k \<and>
                               u_status (outcome_update sv now e st) = Some ''sent'') es))"
  using assms
proof (induction es arbitrary: st calls)
  case Nil
  show ?case by (simp add: store_after_def)
next
  case (Cons x es)
  let ?st1 = "store_after (sendScheduledEmail sv now x st)"
  have wf1: "wf_store ?st1" by (rule wf_store_sendScheduledEmail [OF Cons.prems])
  have same: "outcome_update sv now e ?st1 = outcome_update sv now e st" for e
    by (rule outcome_update_directory [OF send_directory])
  show ?case
    unfolding send_each_Cons Cons.IH [OF wf1] same send_usage [OF Cons.prems]
    by simp
qed

text \<open>What a tick leaves of a due record: the record with the outcome of its dispatch.\<close>

lemma tick_stored:
  assumes "wf_store st" and "due \<in> set (getPendingScheduledEmails now st)"
  shows "getScheduledEmail (e_id due)
           (store_after (send_each sv now (getPendingScheduledEmails now st) st calls)) =
         getScheduledEmail (e_id due) (store_after (sendScheduledEmail sv now due st))"
    and "getScheduledEmail (e_id due) (store_after (sendScheduledEmail sv now due st)) =
         Some (spread_update due (outcome_update sv now due st))"
    and "getScheduledEmail (e_id due) st = Some due"
proof -
  show "getScheduledEmail (e_id due)
           (store_after (send_each sv now (getPendingScheduledEmails now st) st calls)) =
         getScheduledEmail (e_id due) (store_after (sendScheduledEmail sv now due st))"
    by (rule send_each_isolated [OF pending_ids_distinct [OF assms(1)] assms(2)])
  from assms(2) have "due \<in> snd ` set (scheduledEmails st)"
    by (simp add: pending_set)
  then show s: "getScheduledEmail (e_id due) st = Some due"
    by (rule wf_store_values [OF assms(1)])
  then show "getScheduledEmail (e_id due) (store_after (sendScheduledEmail sv now due st)) =
         Some (spread_update due (outcome_update sv now due st))"
    by (simp add: send_stored)
qed

lemma tick_usage:
  assumes "wf_store st"
  shows "usage k (fst (processPendingEmails sv now st)) =
     usage k st +
     int (length (filter
       (\<lambda>due. e_templateId due = k \<and>
               map_option e_status
                 (getScheduledEmail (e_id due) (fst (processPendingEmails sv now st))) =
               Some ''sent'')
       (getPendingScheduledEmails now st)))"
proof -
  let ?es = "getPendingScheduledEmails now st"
  have "(map_option e_status
           (getScheduledEmail (e_id due) (store_after (send_each sv now ?es st []))) =
         Some ''sent'') =
        (u_status (outcome_update sv now due st) = Some ''sent'')"
    if "due \<in> set ?es" for due
    using outcome_status [of sv now due st]
    by (auto simp: tick_stored(1,2) [OF assms that] spread_status)
  then have "filter (\<lambda>due. e_templateId due = k \<and>
        map_option e_status
          (getScheduledEmail (e_id due) (store_after (send_each sv now ?es st []))) =
        Some ''sent'') ?es =
      filter (\<lambda>due. e_templateId due = k \<and>
        u_status (outcome_update sv now due st) = Some ''sent'') ?es"
    by (intro filter_cong refl) simp
  then show ?thesis
    by (simp add: processPendingEmails_run send_each_usage [OF assms])
qed
section \<open>Claims about the due time\<close>

lemma scheduleEmail_scheduledFor:
  "e_scheduledFor (fst (scheduleEmail z now clientId templateId delay language st)) =
     scheduledFor_after z delay now"
  by (simp add: scheduleEmail_def createScheduledEmail_def Let_def)

lemma scheduledFor_after_local:
  "scheduledFor_after z delay now = UTC z (local_due z delay now)"
  by (cases delay)
    (simp_all add: scheduledFor_after_def local_due_def local_advance_def setMinutes_local
      setDate_local setMonth_local)





text \<open>
  C4, as the code has it. With the delay \<open>1month\<close> the due time is the time at which the
  local clock reads the local time of \<open>now\<close> moved on by the length of the month \<open>now\<close>
  lies in. Where that local time exists in the zone, the due time has the time of day of
  \<open>now\<close>, and its date is the day of the month of \<open>now\<close> in the next month where that
  day exists there; where it does not, the date is not clamped to the end of the next
  month: the days in excess run on into the month after it (January 31 gives March 3, or
  March 2 in a leap year). The due time is \<open>now\<close> plus that many days of 24 hours exactly
  where the offset is kept; across a change of the offset it differs by the change.
\<close>

theorem scheduleEmail_one_month_overflows:
  "(let due = e_scheduledFor (fst (scheduleEmail z now clientId templateId OneMonth language st));
        days = DaysInMonth (getFullYear z now) (getMonth z now);
        y1 = getFullYear z now + (getMonth z now + 1) div 12;
        m1 = (getMonth z now + 1) mod 12;
        d = getDate z now
    in due = UTC z (LocalTime z now + days * msPerDay) \<and>
       (local_time_exists z (LocalTime z now + days * msPerDay) \<longrightarrow>
          TimeWithinDay (LocalTime z due) = TimeWithinDay (LocalTime z now) \<and>
          (if d \<le> DaysInMonth y1 m1
           then getFullYear z due = y1 \<and> getMonth z due = m1 \<and> getDate z due = d
           else getFullYear z due = y1 + (m1 + 1) div 12 \<and>
                getMonth z due = (m1 + 1) mod 12 \<and>
                getDate z due = d - DaysInMonth y1 m1)) \<and>
       due - now =
         days * msPerDay +
         (offset_at z now - offset_of_local z (LocalTime z now + days * msPerDay)) \<and>
       (due = now + days * msPerDay \<longleftrightarrow> offset_kept z OneMonth now))"
proof -
  define wall where
    "wall = LocalTime z now + DaysInMonth (getFullYear z now) (getMonth z now) * msPerDay"
  have w: "local_due z OneMonth now = wall"
    by (simp add: wall_def local_due_def local_advance_def)
  have due: "e_scheduledFor (fst (scheduleEmail z now clientId templateId OneMonth language st)) =
      UTC z wall"
    by (simp add: scheduleEmail_scheduledFor scheduledFor_after_local w)
  have wall': "wall = LocalTime z now +
      DaysInMonth (YearFromTime (LocalTime z now)) (MonthFromTime (LocalTime z now)) * msPerDay"
    by (simp add: wall_def getFullYear_def getMonth_def)
  note f = month_later_fields [of "LocalTime z now", folded wall']
  have fields: "TimeWithinDay (LocalTime z (UTC z wall)) = TimeWithinDay (LocalTime z now) \<and>
      (if getDate z now \<le> DaysInMonth (getFullYear z now + (getMonth z now + 1) div 12)
            ((getMonth z now + 1) mod 12)
       then getFullYear z (UTC z wall) = getFullYear z now + (getMonth z now + 1) div 12 \<and>
            getMonth z (UTC z wall) = (getMonth z now + 1) mod 12 \<and>
            getDate z (UTC z wall) = getDate z now
       else getFullYear z (UTC z wall) =
              getFullYear z now + (getMonth z now + 1) div 12 +
              ((getMonth z now + 1) mod 12 + 1) div 12 \<and>
            getMonth z (UTC z wall) = ((getMonth z now + 1) mod 12 + 1) mod 12 \<and>
            getDate z (UTC z wall) =
              getDate z now - DaysInMonth (getFullYear z now + (getMonth z now + 1) div 12)
                ((getMonth z now + 1) mod 12))"
    if "local_time_exists z wall"
  proof -
    from that have l: "LocalTime z (UTC z wall) = wall" by (simp add: local_time_exists_def)
    show ?thesis
      unfolding getFullYear_def getMonth_def getDate_def l
      using f by (simp split: if_splits)
  qed
  have diff: "UTC z wall - now =
      DaysInMonth (getFullYear z now) (getMonth z now) * msPerDay +
      (offset_at z now - offset_of_local z wall)"
    by (simp add: UTC_def wall_def LocalTime_def)
  have kept: "UTC z wall = now + DaysInMonth (getFullYear z now) (getMonth z now) * msPerDay \<longleftrightarrow>
      offset_kept z OneMonth now"
    unfolding offset_kept_def w using diff by auto
  show ?thesis
    unfolding Let_def due wall_def [symmetric]
    using fields diff kept by blast
qed

text \<open>
  In US Eastern time, a month after noon of 20 February 2025 is noon of 20 March 2025, which
  is 28 days less an hour later, summer time having begun; a month after noon of 15 June
  is 30 days later.
\<close>

theorem scheduleEmail_one_month_overflows_witness:
  "local_time_exists eastern_2025 (LocalTime eastern_2025 1740070800000 + 28 * msPerDay) \<and>
   \<not> offset_kept eastern_2025 OneMonth 1740070800000 \<and>
   offset_kept eastern_2025 OneMonth 1750003200000 \<and>
   (let due = e_scheduledFor
        (fst (scheduleEmail eastern_2025 1740070800000 1 1 OneMonth None new_MemStorage))
    in getFullYear eastern_2025 due = 2025 \<and> getMonth eastern_2025 due = 2 \<and>
       getDate eastern_2025 due = 20 \<and>
       TimeWithinDay (LocalTime eastern_2025 due) =
         TimeWithinDay (LocalTime eastern_2025 1740070800000) \<and>
       due - 1740070800000 = 2415600000) \<and>
   e_scheduledFor (fst (scheduleEmail eastern_2025 1750003200000 1 1 OneMonth None new_MemStorage)) =
     1750003200000 + 30 * msPerDay"
proof -
  have y: "getFullYear eastern_2025 1740070800000 = 2025" by code_simp
  have m: "getMonth eastern_2025 1740070800000 = 1" by code_simp
  have d: "getDate eastern_2025 1740070800000 = 20" by code_simp
  have y': "getFullYear eastern_2025 1750003200000 = 2025" by code_simp
  have m': "getMonth eastern_2025 1750003200000 = 5" by code_simp
  have dd: "28 * msPerDay = 2419200000" "30 * msPerDay = 2592000000"
    by (simp_all add: msPerDay_def)
  have e: "local_time_exists eastern_2025 (LocalTime eastern_2025 1740070800000 + 2419200000)"
    by code_simp
  have k: "\<not> offset_kept eastern_2025 OneMonth 1740070800000" by code_simp
  have k': "offset_kept eastern_2025 OneMonth 1750003200000" by code_simp
  have o: "offset_at eastern_2025 1740070800000 -
      offset_of_local eastern_2025 (LocalTime eastern_2025 1740070800000 + 2419200000) =
      - 3600000"
    by code_simp
  have l: "DaysInMonth 2025 1 = 28" "DaysInMonth 2025 2 = 31" "DaysInMonth 2025 5 = 30"
    by (simp_all add: DaysInMonth_def DaysInYear_def)
  note a = scheduleEmail_one_month_overflows
    [of eastern_2025 1740070800000 1 1 None new_MemStorage, unfolded Let_def]
  note b = scheduleEmail_one_month_overflows
    [of eastern_2025 1750003200000 1 1 None new_MemStorage, unfolded Let_def]
  have a1: "TimeWithinDay (LocalTime eastern_2025 (e_scheduledFor
        (fst (scheduleEmail eastern_2025 1740070800000 1 1 OneMonth None new_MemStorage)))) =
      TimeWithinDay (LocalTime eastern_2025 1740070800000) \<and>
      getFullYear eastern_2025 (e_scheduledFor
        (fst (scheduleEmail eastern_2025 1740070800000 1 1 OneMonth None new_MemStorage))) = 2025 \<and>
      getMonth eastern_2025 (e_scheduledFor
        (fst (scheduleEmail eastern_2025 1740070800000 1 1 OneMonth None new_MemStorage))) = 2 \<and>
      getDate eastern_2025 (e_scheduledFor
        (fst (scheduleEmail eastern_2025 1740070800000 1 1 OneMonth None new_MemStorage))) = 20"
    using a [THEN conjunct2, THEN conjunct1] e by (simp add: y m d l dd)
  have a2: "e_scheduledFor
      (fst (scheduleEmail eastern_2025 1740070800000 1 1 OneMonth None new_MemStorage)) -
      1740070800000 = 2415600000"
    using a [THEN conjunct2, THEN conjunct2, THEN conjunct1] by (simp add: y m l dd o)
  have b1: "e_scheduledFor
      (fst (scheduleEmail eastern_2025 1750003200000 1 1 OneMonth None new_MemStorage)) =
      1750003200000 + 2592000000"
    using b [THEN conjunct2, THEN conjunct2, THEN conjunct2] k' by (simp add: y' m' l dd)
  show ?thesis
    unfolding Let_def dd
    by (intro conjI e k k' a2 b1 a1 [THEN conjunct1] a1 [THEN conjunct2, THEN conjunct1]
        a1 [THEN conjunct2, THEN conjunct2, THEN conjunct1]
        a1 [THEN conjunct2, THEN conjunct2, THEN conjunct2])
qed

text \<open>
  C4 as stated fails: one month after 31 January 2025, 00:00 UTC, is 3 March 2025, a date
  in March, not the last day of February.
\<close>

theorem scheduleEmail_one_month_jan_31_counterexample:
  "getFullYear (fixed_zone 0) 1738281600000 = 2025 \<and>
   getMonth (fixed_zone 0) 1738281600000 = 0 \<and>
   getDate (fixed_zone 0) 1738281600000 = 31 \<and>
   getFullYear (fixed_zone 0)
     (e_scheduledFor
        (fst (scheduleEmail (fixed_zone 0) 1738281600000 1 1 OneMonth None new_MemStorage))) = 2025 \<and>
   getMonth (fixed_zone 0)
     (e_scheduledFor
        (fst (scheduleEmail (fixed_zone 0) 1738281600000 1 1 OneMonth None new_MemStorage))) = 2 \<and>
   getDate (fixed_zone 0)
     (e_scheduledFor
        (fst (scheduleEmail (fixed_zone 0) 1738281600000 1 1 OneMonth None new_MemStorage))) = 3"
  by code_simp



section \<open>Claims about dispatch\<close>

text \<open>
  C1. A pending record of the store whose client and template resolve, whose language
  gives a subject and a body that are not empty, both of which are personalized, and whose
  message the transport accepts, becomes \<open>sent\<close>, with the sent time and the personalized
  subject and body stored; exactly one log entry with status \<open>sent\<close> for that client,
  template and record is appended; the usage count of that template goes up by one, and no
  other template changes.
\<close>

theorem sendScheduledEmail_sent:
  assumes "wf_store st"
    and "getScheduledEmail (e_id e) st = Some e"
    and "e_status e = ''pending''"
    and "getClient (e_clientId e) st = Some c"
    and "getEmailTemplate (e_templateId e) st = Some t"
    and "truthy (subject_of t (language_of e c))"
    and "truthy (content_of t (language_of e c))"
    and "personalizeContent sv (subject_of t (language_of e c)) (variables sv c) = Inr subject"
    and "personalizeContent sv (content_of t (language_of e c)) (variables sv c) = Inr content"
    and "sendEmail sv (mail_of c subject content) = Inr True"
  shows "\<exists>st'. sendScheduledEmail sv now e st = Inr (st', [mail_of c subject content]) \<and>
           getScheduledEmail (e_id e) st' =
             Some (e\<lparr>e_status := ''sent'',
                     e_sentAt := Some now,
                     e_personalizedSubject := Some subject,
                     e_personalizedContent := Some content\<rparr>) \<and>
           emailLogs st' =
             emailLogs st @
               [(currentLogId st,
                 \<lparr>l_id = currentLogId st,
                  l_clientId = e_clientId e,
                  l_templateId = Some (e_templateId e),
                  l_scheduledEmailId = Some (e_id e),
                  l_subject = subject,
                  l_status = ''sent'',
                  l_language = language_of e c,
                  l_sentAt = now,
                  l_deliveredAt = None,
                  l_openedAt = None,
                  l_errorMessage = None\<rparr>)] \<and>
           getEmailTemplate (e_templateId e) st' =
             Some (t\<lparr>t_usageCount :=
                      Some ((case t_usageCount t of None \<Rightarrow> 0 | Some n \<Rightarrow> n) + 1)\<rparr>) \<and>
           (\<forall>k. k \<noteq> e_templateId e \<longrightarrow> getEmailTemplate k st' = getEmailTemplate k st)"
proof -
  note wf = wf_store_lookups [OF assms(1)]
  have ids: "c_id c = e_clientId e" "t_id t = e_templateId e" "e_templateId e \<noteq> 0" "e_id e \<noteq> 0"
    using wf(1) [OF assms(4)] wf(2) [OF assms(5)] wf(3) [OF assms(2)] by simp_all
  have fresh: "currentLogId st \<notin> fst ` set (emailLogs st)" by (rule wf(4))
  define insertLog where
    "insertLog =
       \<lparr>il_clientId = e_clientId e, il_templateId = Some (e_templateId e),
        il_scheduledEmailId = Some (e_id e), il_subject = subject, il_status = ''sent'',
        il_language = language_of e c, il_errorMessage = None\<rparr>"
  define st1 where "st1 = snd (updateScheduledEmail (e_id e) (sent_with now subject content) st)"
  define st2 where "st2 = snd (createEmailLog now insertLog st1)"
  define st3 where "st3 = incrementTemplateUsage (e_templateId e) st2"
  have run: "sendScheduledEmail sv now e st = Inr (st3, [mail_of c subject content])"
    unfolding send_accepted [OF assms(4-10)] ids
    by (simp add: st3_def st2_def st1_def insertLog_def)
  have stored: "getScheduledEmail (e_id e) st3 =
      Some (e\<lparr>e_status := ''sent'', e_sentAt := Some now,
              e_personalizedSubject := Some subject, e_personalizedContent := Some content\<rparr>)"
    using assms(2)
    by (simp add: st3_def st2_def st1_def updateScheduledEmail_lookup spread_sent)
  have log: "fst (createEmailLog now insertLog st1) =
      \<lparr>l_id = currentLogId st, l_clientId = e_clientId e, l_templateId = Some (e_templateId e),
       l_scheduledEmailId = Some (e_id e), l_subject = subject, l_status = ''sent'',
       l_language = language_of e c, l_sentAt = now, l_deliveredAt = None, l_openedAt = None,
       l_errorMessage = None\<rparr>"
    using ids(3,4)
    by (simp add: createEmailLog_def Let_def insertLog_def num_or_null_def str_or_null_def st1_def)
  have logs: "emailLogs st3 = emailLogs st @ [(currentLogId st, fst (createEmailLog now insertLog st1))]"
    using fresh by (simp add: st3_def st2_def createEmailLog_logs st1_def update_fresh)
  have template: "getEmailTemplate k st3 =
      (if k = e_templateId e
       then Some (t\<lparr>t_usageCount :=
                     Some ((case t_usageCount t of None \<Rightarrow> 0 | Some n \<Rightarrow> n) + 1)\<rparr>)
       else getEmailTemplate k st)" for k
    using assms(5) by (simp add: st3_def st2_def st1_def incrementTemplateUsage_lookup)
  show ?thesis
    unfolding run using stored logs template
    by (simp add: log)
qed

theorem sendScheduledEmail_sent_witness:
  "wf_store (example_store [example_email 1 1 ''fr'' ''pending'']) \<and>
   getScheduledEmail 1 (example_store [example_email 1 1 ''fr'' ''pending'']) =
     Some (example_email 1 1 ''fr'' ''pending'') \<and>
   getClient 1 (example_store [example_email 1 1 ''fr'' ''pending'']) = Some example_client \<and>
   getEmailTemplate 1 (example_store [example_email 1 1 ''fr'' ''pending'']) =
     Some example_template \<and>
   language_of (example_email 1 1 ''fr'' ''pending'') example_client = ''fr'' \<and>
   subject_of example_template ''fr'' = Str ''Bonjour'' \<and>
   content_of example_template ''fr'' = Str ''<p>Hi</p>'' \<and>
   personalizeContent (example_services (Inr True)) (Str ''Bonjour'')
     (variables (example_services (Inr True)) example_client) = Inr ''Bonjour'' \<and>
   personalizeContent (example_services (Inr True)) (Str ''<p>Hi</p>'')
     (variables (example_services (Inr True)) example_client) = Inr ''<p>Hi</p>'' \<and>
   sendEmail (example_services (Inr True))
     (mail_of example_client ''Bonjour'' ''<p>Hi</p>'') = Inr True \<and>
   (\<exists>st'. sendScheduledEmail (example_services (Inr True)) 120000
            (example_email 1 1 ''fr'' ''pending'')
            (example_store [example_email 1 1 ''fr'' ''pending'']) =
            Inr (st', [mail_of example_client ''Bonjour'' ''<p>Hi</p>'']) \<and>
          getScheduledEmail 1 st' =
            Some ((example_email 1 1 ''fr'' ''pending'')
                    \<lparr>e_status := ''sent'', e_sentAt := Some 120000,
                     e_personalizedSubject := Some ''Bonjour'',
                     e_personalizedContent := Some ''<p>Hi</p>''\<rparr>) \<and>
          map fst (emailLogs st') = [1] \<and>
          map_option t_usageCount (getEmailTemplate 1 st') = Some (Some 1))"
proof -
  let ?e = "example_email 1 1 ''fr'' ''pending''"
  let ?sv = "example_services (Inr True)"
  have i: "e_id ?e = 1" "e_clientId ?e = 1" "e_templateId ?e = 1"
    by (simp_all add: example_email_def)
  have 0: "wf_store (example_store [?e])"
    by (simp add: wf_store_def example_defs)
  have 1: "getScheduledEmail (e_id ?e) (example_store [?e]) = Some ?e"
    by (simp add: getScheduledEmail_def example_store_def example_email_def)
  have p: "e_status ?e = ''pending''" by (simp add: example_email_def)
  have 2: "getClient (e_clientId ?e) (example_store [?e]) = Some example_client"
    by (simp add: getClient_def example_store_def example_email_def)
  have 3: "getEmailTemplate (e_templateId ?e) (example_store [?e]) = Some example_template"
    by (simp add: getEmailTemplate_def example_store_def example_email_def)
  have l: "language_of ?e example_client = ''fr''"
    by (simp add: language_of_def str_or_def example_email_def)
  have s: "subject_of example_template ''fr'' = Str ''Bonjour''"
    by (simp add: subject_of_def value_or_def property_def truthy_def example_template_def)
  have c: "content_of example_template ''fr'' = Str ''<p>Hi</p>''"
    by (simp add: content_of_def value_or_def property_def truthy_def example_template_def
        object_prototype_keys_def)
  have 4: "truthy (subject_of example_template (language_of ?e example_client))"
    "truthy (content_of example_template (language_of ?e example_client))"
    unfolding l s c by (simp_all add: truthy_def)
  have 5: "personalizeContent ?sv (subject_of example_template (language_of ?e example_client))
        (variables ?sv example_client) = Inr ''Bonjour''"
    "personalizeContent ?sv (content_of example_template (language_of ?e example_client))
        (variables ?sv example_client) = Inr ''<p>Hi</p>''"
    unfolding l s c by (simp_all add: example_services_def)
  have 6: "sendEmail ?sv (mail_of example_client ''Bonjour'' ''<p>Hi</p>'') = Inr True"
    by (simp add: example_services_def)
  have u: "t_usageCount example_template = Some 0"
    "emailLogs (example_store [?e]) = []" "currentLogId (example_store [?e]) = 1"
    by (simp_all add: example_template_def example_store_def)
  show ?thesis
    using sendScheduledEmail_sent [OF 0 1 p 2 3 4 5 6, of 120000] 0 1 2 3 5 6
    unfolding l s c i u by auto
qed

text \<open>
  C2. A pending record of the store whose client or template does not resolve becomes
  \<open>failed\<close> with the message \<open>Client or template not found\<close>; the transport is not
  called, no log entry is made and no template changes.
\<close>

theorem sendScheduledEmail_not_found:
  assumes "getScheduledEmail (e_id e) st = Some e"
    and "e_status e = ''pending''"
    and "getClient (e_clientId e) st = None \<or> getEmailTemplate (e_templateId e) st = None"
  shows "\<exists>st'. sendScheduledEmail sv now e st = Inr (st', []) \<and>
           getScheduledEmail (e_id e) st' =
             Some (e\<lparr>e_status := ''failed'',
                     e_errorMessage := Some ''Client or template not found''\<rparr>) \<and>
           emailLogs st' = emailLogs st \<and>
           emailTemplates st' = emailTemplates st"
proof -
  have "spread_update e (failed_with ''Client or template not found'') =
      e\<lparr>e_status := ''failed'', e_errorMessage := Some ''Client or template not found''\<rparr>"
    by (simp add: spread_update_def failed_with_def no_fields_def override_def)
  then show ?thesis
    using assms(1) by (simp add: send_not_found [OF assms(3)] updateScheduledEmail_lookup)
qed

theorem sendScheduledEmail_not_found_witness:
  "getScheduledEmail 1 (example_store [example_email 1 7 ''en'' ''pending'']) =
     Some (example_email 1 7 ''en'' ''pending'') \<and>
   getClient 7 (example_store [example_email 1 7 ''en'' ''pending'']) = None \<and>
   (\<exists>st'. sendScheduledEmail (example_services (Inr True)) 120000
            (example_email 1 7 ''en'' ''pending'')
            (example_store [example_email 1 7 ''en'' ''pending'']) = Inr (st', []) \<and>
          getScheduledEmail 1 st' =
            Some ((example_email 1 7 ''en'' ''pending'')
                    \<lparr>e_status := ''failed'',
                     e_errorMessage := Some ''Client or template not found''\<rparr>) \<and>
          emailLogs st' = [] \<and>
          emailTemplates st' = [(1, example_template)])"
proof -
  let ?e = "example_email 1 7 ''en'' ''pending''"
  have 1: "getScheduledEmail (e_id ?e) (example_store [?e]) = Some ?e"
    by (simp add: getScheduledEmail_def example_store_def example_email_def)
  have 2: "e_status ?e = ''pending''"
    by (simp add: example_email_def)
  have 3: "getClient (e_clientId ?e) (example_store [?e]) = None \<or>
           getEmailTemplate (e_templateId ?e) (example_store [?e]) = None"
    by (simp add: getClient_def example_store_def example_email_def)
  have 4: "e_id ?e = 1" "e_clientId ?e = 7" by (simp_all add: example_email_def)
  have 5: "emailLogs (example_store [?e]) = []"
    "emailTemplates (example_store [?e]) = [(1, example_template)]"
    by (simp_all add: example_store_def)
  show ?thesis
    using sendScheduledEmail_not_found [OF 1 2 3, of "example_services (Inr True)" 120000] 1 3
    unfolding 4 5 by (simp add: getClient_def example_store_def)
qed

text \<open>
  C3, as the code has it. The subject and the body are resolved each on its own: a field is
  taken from the requested language when the template has a truthy value of that field
  under it, and otherwise from the primary language; a value is a string of the template
  that is not empty or, under the name of a member of \<^verbatim>\<open>Object.prototype\<close>, that member.
  If the subject or the body so resolved is empty, the record becomes \<open>failed\<close> with the
  message \<open>Template content not available for language: <lang>\<close> and the transport is
  not called. Otherwise the two resolved values are personalized: if that throws, the
  record becomes \<open>failed\<close> with the message thrown and the transport is not called; if
  not, the transport is called once, with the two personalized fields.
\<close>

theorem sendScheduledEmail_language_per_field:
  assumes "getScheduledEmail (e_id e) st = Some e"
    and "getClient (e_clientId e) st = Some c"
    and "getEmailTemplate (e_templateId e) st = Some t"
  shows "subject_of t (language_of e c) =
           (if truthy_at (t_subject t) (language_of e c)
              then the (property (t_subject t) (language_of e c))
            else if truthy_at (t_subject t) (t_primaryLanguage t)
              then the (property (t_subject t) (t_primaryLanguage t))
            else Str []) \<and>
         content_of t (language_of e c) =
           (if truthy_at (t_content t) (language_of e c)
              then the (property (t_content t) (language_of e c))
            else if truthy_at (t_content t) (t_primaryLanguage t)
              then the (property (t_content t) (t_primaryLanguage t))
            else Str []) \<and>
         (if truthy (subject_of t (language_of e c)) \<and> truthy (content_of t (language_of e c))
          then
            (case personalizeContent sv (subject_of t (language_of e c)) (variables sv c) of
               Inl err \<Rightarrow>
                 \<exists>st'. sendScheduledEmail sv now e st = Inr (st', []) \<and>
                   getScheduledEmail (e_id e) st' =
                     Some (e\<lparr>e_status := ''failed'',
                             e_errorMessage :=
                               Some (case err of JsError msg \<Rightarrow> msg
                                     | Thrown \<Rightarrow> ''Unknown error'')\<rparr>)
             | Inr subject \<Rightarrow>
            (case personalizeContent sv (content_of t (language_of e c)) (variables sv c) of
               Inl err \<Rightarrow>
                 \<exists>st'. sendScheduledEmail sv now e st = Inr (st', []) \<and>
                   getScheduledEmail (e_id e) st' =
                     Some (e\<lparr>e_status := ''failed'',
                             e_errorMessage :=
                               Some (case err of JsError msg \<Rightarrow> msg
                                     | Thrown \<Rightarrow> ''Unknown error'')\<rparr>)
             | Inr content \<Rightarrow>
                 calls_of (sendScheduledEmail sv now e st) =
                   [\<lparr>m_to = c_email c, m_from = ''noreply@emailflow.app'', m_subject = subject,
                     m_html = content, m_text = stripTags content\<rparr>]))
          else \<exists>st'. sendScheduledEmail sv now e st = Inr (st', []) \<and>
                 getScheduledEmail (e_id e) st' =
                   Some (e\<lparr>e_status := ''failed'',
                           e_errorMessage :=
                             Some (''Template content not available for language: ''
                                   @ language_of e c)\<rparr>))"
proof (intro conjI)
  show "subject_of t (language_of e c) =
           (if truthy_at (t_subject t) (language_of e c)
              then the (property (t_subject t) (language_of e c))
            else if truthy_at (t_subject t) (t_primaryLanguage t)
              then the (property (t_subject t) (t_primaryLanguage t))
            else Str [])"
    unfolding subject_of_def by (rule value_or_truthy_at)
  show "content_of t (language_of e c) =
           (if truthy_at (t_content t) (language_of e c)
              then the (property (t_content t) (language_of e c))
            else if truthy_at (t_content t) (t_primaryLanguage t)
              then the (property (t_content t) (t_primaryLanguage t))
            else Str [])"
    unfolding content_of_def by (rule value_or_truthy_at)
  have failed: "getScheduledEmail (e_id e)
        (snd (updateScheduledEmail (e_id e) (failed_with msg) st)) =
      Some (e\<lparr>e_status := ''failed'', e_errorMessage := Some msg\<rparr>)" for msg
    using assms(1) by (simp add: updateScheduledEmail_lookup spread_failed)
  show "if truthy (subject_of t (language_of e c)) \<and> truthy (content_of t (language_of e c))
          then
            (case personalizeContent sv (subject_of t (language_of e c)) (variables sv c) of
               Inl err \<Rightarrow>
                 \<exists>st'. sendScheduledEmail sv now e st = Inr (st', []) \<and>
                   getScheduledEmail (e_id e) st' =
                     Some (e\<lparr>e_status := ''failed'',
                             e_errorMessage :=
                               Some (case err of JsError msg \<Rightarrow> msg
                                     | Thrown \<Rightarrow> ''Unknown error'')\<rparr>)
             | Inr subject \<Rightarrow>
            (case personalizeContent sv (content_of t (language_of e c)) (variables sv c) of
               Inl err \<Rightarrow>
                 \<exists>st'. sendScheduledEmail sv now e st = Inr (st', []) \<and>
                   getScheduledEmail (e_id e) st' =
                     Some (e\<lparr>e_status := ''failed'',
                             e_errorMessage :=
                               Some (case err of JsError msg \<Rightarrow> msg
                                     | Thrown \<Rightarrow> ''Unknown error'')\<rparr>)
             | Inr content \<Rightarrow>
                 calls_of (sendScheduledEmail sv now e st) =
                   [\<lparr>m_to = c_email c, m_from = ''noreply@emailflow.app'', m_subject = subject,
                     m_html = content, m_text = stripTags content\<rparr>]))
          else \<exists>st'. sendScheduledEmail sv now e st = Inr (st', []) \<and>
                 getScheduledEmail (e_id e) st' =
                   Some (e\<lparr>e_status := ''failed'',
                           e_errorMessage :=
                             Some (''Template content not available for language: ''
                                   @ language_of e c)\<rparr>)"
  proof (cases rule: send_cases [where e = e and st = st and sv = sv])
    case not_found
    with assms(2,3) show ?thesis by simp
  next
    case (no_content c' t')
    with assms(2,3) have eq: "c' = c" "t' = t" by simp_all
    from no_content(3) show ?thesis
      unfolding eq
      by (auto simp: send_no_content [OF assms(2,3) no_content(3) [unfolded eq]] failed)
  next
    case (subject_thrown c' t' err)
    with assms(2,3) have eq: "c' = c" "t' = t" by simp_all
    note h = subject_thrown(3-) [unfolded eq]
    show ?thesis
      using h by (simp add: send_subject_thrown [OF assms(2,3) h] failed thrown_message_def)
  next
    case (content_thrown c' t' subject err)
    with assms(2,3) have eq: "c' = c" "t' = t" by simp_all
    note h = content_thrown(3-) [unfolded eq]
    show ?thesis
      using h by (simp add: send_content_thrown [OF assms(2,3) h] failed thrown_message_def)
  next
    case (thrown c' t' subject content err)
    with assms(2,3) have eq: "c' = c" "t' = t" by simp_all
    note h = thrown(3-) [unfolded eq]
    show ?thesis
      using h(1-4) by (simp add: send_thrown [OF assms(2,3) h] calls_of_def mail_of_def)
  next
    case (refused c' t' subject content)
    with assms(2,3) have eq: "c' = c" "t' = t" by simp_all
    note h = refused(3-) [unfolded eq]
    show ?thesis
      using h(1-4) by (simp add: send_refused [OF assms(2,3) h] calls_of_def mail_of_def)
  next
    case (accepted c' t' subject content)
    with assms(2,3) have eq: "c' = c" "t' = t" by simp_all
    note h = accepted(3-) [unfolded eq]
    show ?thesis
      using h(1-4) by (simp add: send_accepted [OF assms(2,3) h] calls_of_def mail_of_def)
  qed
qed

text \<open>
  The language \<open>fr\<close>, of which the template has the subject only; and the language
  \<open>constructor\<close>, of which it has nothing, but which names a member of
  \<^verbatim>\<open>Object.prototype\<close>: there is no fall-back to the primary language, the
  personalization throws, and the record fails with what it threw.
\<close>

theorem sendScheduledEmail_language_per_field_witness:
  "getScheduledEmail 1 (example_store [example_email 1 1 ''fr'' ''pending'']) =
     Some (example_email 1 1 ''fr'' ''pending'') \<and>
   getClient 1 (example_store [example_email 1 1 ''fr'' ''pending'']) = Some example_client \<and>
   getEmailTemplate 1 (example_store [example_email 1 1 ''fr'' ''pending'']) =
     Some example_template \<and>
   language_of (example_email 1 1 ''fr'' ''pending'') example_client = ''fr'' \<and>
   subject_of example_template ''fr'' = Str ''Bonjour'' \<and>
   content_of example_template ''fr'' = Str ''<p>Hi</p>'' \<and>
   calls_of (sendScheduledEmail (example_services (Inr True)) 120000
               (example_email 1 1 ''fr'' ''pending'')
               (example_store [example_email 1 1 ''fr'' ''pending''])) =
     [\<lparr>m_to = ''ada@example.org'', m_from = ''noreply@emailflow.app'',
       m_subject = ''Bonjour'', m_html = ''<p>Hi</p>'', m_text = ''Hi''\<rparr>] \<and>
   getScheduledEmail 1 (example_store [example_email 1 1 ''constructor'' ''pending'']) =
     Some (example_email 1 1 ''constructor'' ''pending'') \<and>
   language_of (example_email 1 1 ''constructor'' ''pending'') example_client = ''constructor'' \<and>
   subject_of example_template ''constructor'' = Inherited ''constructor'' \<and>
   content_of example_template ''constructor'' = Inherited ''constructor'' \<and>
   (\<exists>st'. sendScheduledEmail (example_services (Inr True)) 120000
            (example_email 1 1 ''constructor'' ''pending'')
            (example_store [example_email 1 1 ''constructor'' ''pending'']) = Inr (st', []) \<and>
          getScheduledEmail 1 st' =
            Some ((example_email 1 1 ''constructor'' ''pending'')
                    \<lparr>e_status := ''failed'',
                     e_errorMessage := Some ''content.replace is not a function''\<rparr>))"
proof -
  let ?e = "example_email 1 1 ''fr'' ''pending''"
  let ?f = "example_email 1 1 ''constructor'' ''pending''"
  let ?sv = "example_services (Inr True)"
  have i: "e_id ?e = 1" "e_clientId ?e = 1" "e_templateId ?e = 1"
    "e_id ?f = 1" "e_clientId ?f = 1" "e_templateId ?f = 1"
    by (simp_all add: example_email_def)
  have 1: "getScheduledEmail (e_id ?e) (example_store [?e]) = Some ?e"
    "getScheduledEmail (e_id ?f) (example_store [?f]) = Some ?f"
    by (simp_all add: getScheduledEmail_def example_store_def example_email_def)
  have 2: "getClient (e_clientId ?e) (example_store [?e]) = Some example_client"
    "getClient (e_clientId ?f) (example_store [?f]) = Some example_client"
    by (simp_all add: getClient_def example_store_def example_email_def)
  have 3: "getEmailTemplate (e_templateId ?e) (example_store [?e]) = Some example_template"
    "getEmailTemplate (e_templateId ?f) (example_store [?f]) = Some example_template"
    by (simp_all add: getEmailTemplate_def example_store_def example_email_def)
  have l: "language_of ?e example_client = ''fr''"
    "language_of ?f example_client = ''constructor''"
    by (simp_all add: language_of_def str_or_def example_email_def)
  have s: "subject_of example_template ''fr'' = Str ''Bonjour''"
    "subject_of example_template ''constructor'' = Inherited ''constructor''"
    by (simp_all add: subject_of_def value_or_def property_def truthy_def example_template_def
        object_prototype_keys_def)
  have c: "content_of example_template ''fr'' = Str ''<p>Hi</p>''"
    "content_of example_template ''constructor'' = Inherited ''constructor''"
    by (simp_all add: content_of_def value_or_def property_def truthy_def example_template_def
        object_prototype_keys_def)
  have v: "personalizeContent ?sv (Str ''Bonjour'') (variables ?sv example_client) = Inr ''Bonjour''"
    "personalizeContent ?sv (Str ''<p>Hi</p>'') (variables ?sv example_client) = Inr ''<p>Hi</p>''"
    "personalizeContent ?sv (Inherited ''constructor'') (variables ?sv example_client) =
       Inl (JsError ''content.replace is not a function'')"
    by (simp_all add: example_services_def)
  have m: "c_email example_client = ''ada@example.org''" "stripTags ''<p>Hi</p>'' = ''Hi''"
    by (simp_all add: example_client_def)
  have a: "calls_of (sendScheduledEmail ?sv 120000 ?e (example_store [?e])) =
      [\<lparr>m_to = ''ada@example.org'', m_from = ''noreply@emailflow.app'',
        m_subject = ''Bonjour'', m_html = ''<p>Hi</p>'', m_text = ''Hi''\<rparr>]"
    using sendScheduledEmail_language_per_field
      [OF 1(1) 2(1) 3(1), of ?sv 120000, THEN conjunct2, THEN conjunct2]
    unfolding l s c by (simp add: truthy_def v m)
  have b: "\<exists>st'. sendScheduledEmail ?sv 120000 ?f (example_store [?f]) = Inr (st', []) \<and>
      getScheduledEmail 1 st' =
        Some (?f\<lparr>e_status := ''failed'',
                 e_errorMessage := Some ''content.replace is not a function''\<rparr>)"
    using sendScheduledEmail_language_per_field
      [OF 1(2) 2(2) 3(2), of ?sv 120000, THEN conjunct2, THEN conjunct2]
    unfolding l s c i by (simp add: truthy_def v)
  show ?thesis
    using 1 2 3 a b unfolding i by (simp add: l s c)
qed

text \<open>
  C3 as stated fails: the template has a subject but no body for \<open>fr\<close>, so by the claim
  both fields come from the primary language \<open>en\<close> and the subject is \<open>Hello\<close>; the code
  sends the French subject with the English body.
\<close>

theorem sendScheduledEmail_language_counterexample:
  "language_of (example_email 1 1 ''fr'' ''pending'') example_client = ''fr'' \<and>
   \<not> truthy_at (t_content example_template) ''fr'' \<and>
   t_primaryLanguage example_template = ''en'' \<and>
   t_subject example_template ''en'' = Some ''Hello'' \<and>
   calls_of (sendScheduledEmail (example_services (Inr True)) 120000
               (example_email 1 1 ''fr'' ''pending'')
               (example_store [example_email 1 1 ''fr'' ''pending''])) =
     [\<lparr>m_to = ''ada@example.org'', m_from = ''noreply@emailflow.app'',
       m_subject = ''Bonjour'', m_html = ''<p>Hi</p>'', m_text = ''Hi''\<rparr>]"
  by (simp add: example_defs language_of_def truthy_at_def property_def truthy_def value_or_def
      object_prototype_keys_def str_or_def calls_of_def
      sendScheduledEmail_def sendScheduledEmail_try_def getClient_def getEmailTemplate_def
      subject_of_def content_of_def mail_of_def Let_def updateScheduledEmail_def
      createEmailLog_def incrementTemplateUsage_def)

text \<open>
  C5, as the code has it. \<open>sendScheduledEmail\<close> does not look at the status of the record
  it is given; what keeps a terminal record from being processed again is the due-set
  query, which returns pending records only. So a tick leaves every record that is not
  pending as it is and writes no log entry for it; the records it dispatches are pending
  ones, other than that record; the messages it hands to the transport are those of the
  dispatches of these, one after the other, and no more; the usage count of a template
  rises by the number of these that it marks \<open>sent\<close>; and a tick over a store without
  pending records changes nothing and calls the transport not at all.
\<close>

theorem processPendingEmails_skips_terminal:
  assumes "wf_store st"
    and "getScheduledEmail k st = Some e"
    and "e_status e \<noteq> ''pending''"
  shows "getScheduledEmail k (fst (processPendingEmails sv now st)) = Some e \<and>
         (\<forall>(i, l) \<in> set (emailLogs (fst (processPendingEmails sv now st))).
            l_scheduledEmailId l = Some k \<longrightarrow> (i, l) \<in> set (emailLogs st)) \<and>
         (\<forall>due \<in> set (getPendingScheduledEmails now st).
            e_status due = ''pending'' \<and> e_id due \<noteq> k) \<and>
         snd (processPendingEmails sv now st) =
           concat (map (\<lambda>due. calls_of (sendScheduledEmail sv now due st))
                     (getPendingScheduledEmails now st)) \<and>
         (\<forall>j. usage j (fst (processPendingEmails sv now st)) =
               usage j st +
               int (length (filter
                 (\<lambda>due. e_templateId due = j \<and>
                         map_option e_status
                           (getScheduledEmail (e_id due) (fst (processPendingEmails sv now st))) =
                         Some ''sent'')
                 (getPendingScheduledEmails now st)))) \<and>
         ((\<forall>x \<in> snd ` set (scheduledEmails st). e_status x \<noteq> ''pending'') \<longrightarrow>
            processPendingEmails sv now st = (st, []))"
proof (intro conjI)
  let ?es = "getPendingScheduledEmails now st"
  have other: "e_id due \<noteq> k" if "due \<in> set ?es" for due
  proof
    assume k: "e_id due = k"
    from that have m: "due \<in> snd ` set (scheduledEmails st)" and p: "e_status due = ''pending''"
      by (simp_all add: pending_set)
    from wf_store_values [OF assms(1) m] k assms(2) have "due = e" by simp
    with p assms(3) show False by simp
  qed
  then have k: "k \<notin> e_id ` set ?es" by auto
  show "getScheduledEmail k (fst (processPendingEmails sv now st)) = Some e"
    using assms(2) by (simp add: processPendingEmails_run send_each_other [OF k])
  show "\<forall>(i, l) \<in> set (emailLogs (fst (processPendingEmails sv now st))).
            l_scheduledEmailId l = Some k \<longrightarrow> (i, l) \<in> set (emailLogs st)"
  proof (clarify)
    fix i l
    assume in_logs: "(i, l) \<in> set (emailLogs (fst (processPendingEmails sv now st)))"
      and ref: "l_scheduledEmailId l = Some k"
    from in_logs have "(i, l) \<in> set (emailLogs (store_after (send_each sv now ?es st [])))"
      by (simp add: processPendingEmails_run)
    from send_each_logs [OF this] show "(i, l) \<in> set (emailLogs st)"
    proof
      assume "\<exists>due \<in> set ?es. l_scheduledEmailId l = num_or_null (Some (e_id due))"
      then obtain due where d: "due \<in> set ?es"
        and "l_scheduledEmailId l = num_or_null (Some (e_id due))"
        by blast
      with ref have "e_id due = k"
        by (simp add: num_or_null_def split: if_splits)
      with other [OF d] show ?thesis by simp
    qed
  qed
  show "\<forall>due \<in> set ?es. e_status due = ''pending'' \<and> e_id due \<noteq> k"
    using other by (simp add: pending_set)
  show "snd (processPendingEmails sv now st) =
      concat (map (\<lambda>due. calls_of (sendScheduledEmail sv now due st)) ?es)"
    by (simp add: processPendingEmails_run send_each_calls)
  show "\<forall>j. usage j (fst (processPendingEmails sv now st)) =
      usage j st +
      int (length (filter
        (\<lambda>due. e_templateId due = j \<and>
                map_option e_status
                  (getScheduledEmail (e_id due) (fst (processPendingEmails sv now st))) =
                Some ''sent'')
        ?es))"
    by (intro allI) (rule tick_usage [OF assms(1)])
  show "(\<forall>x \<in> snd ` set (scheduledEmails st). e_status x \<noteq> ''pending'') \<longrightarrow>
            processPendingEmails sv now st = (st, [])"
  proof
    assume "\<forall>x \<in> snd ` set (scheduledEmails st). e_status x \<noteq> ''pending''"
    then have "set ?es = {}" unfolding pending_set by blast
    then have "?es = []" by simp
    then show "processPendingEmails sv now st = (st, [])"
      by (simp add: processPendingEmails_def)
  qed
qed

text \<open>
  A store with a sent record alone, and a store with a sent record and a pending one: the
  tick sends the one message of the pending record and leaves the sent record alone.
\<close>

theorem processPendingEmails_skips_terminal_witness:
  "wf_store (example_store [example_email 1 1 ''en'' ''sent'']) \<and>
   getScheduledEmail 1 (example_store [example_email 1 1 ''en'' ''sent'']) =
     Some (example_email 1 1 ''en'' ''sent'') \<and>
   e_status (example_email 1 1 ''en'' ''sent'') \<noteq> ''pending'' \<and>
   getScheduledEmail 1
     (fst (processPendingEmails (example_services (Inr True)) 120000
             (example_store [example_email 1 1 ''en'' ''sent''])))
     = Some (example_email 1 1 ''en'' ''sent'') \<and>
   processPendingEmails (example_services (Inr True)) 120000
     (example_store [example_email 1 1 ''en'' ''sent''])
     = (example_store [example_email 1 1 ''en'' ''sent''], []) \<and>
   wf_store (example_store [example_email 1 1 ''en'' ''sent'',
                            example_email 2 1 ''fr'' ''pending'']) \<and>
   getScheduledEmail 1
     (example_store [example_email 1 1 ''en'' ''sent'', example_email 2 1 ''fr'' ''pending'']) =
     Some (example_email 1 1 ''en'' ''sent'') \<and>
   getPendingScheduledEmails 120000
     (example_store [example_email 1 1 ''en'' ''sent'', example_email 2 1 ''fr'' ''pending'']) =
     [example_email 2 1 ''fr'' ''pending''] \<and>
   getScheduledEmail 1
     (fst (processPendingEmails (example_services (Inr True)) 120000
             (example_store [example_email 1 1 ''en'' ''sent'',
                             example_email 2 1 ''fr'' ''pending''])))
     = Some (example_email 1 1 ''en'' ''sent'') \<and>
   snd (processPendingEmails (example_services (Inr True)) 120000
          (example_store [example_email 1 1 ''en'' ''sent'', example_email 2 1 ''fr'' ''pending'']))
     = [\<lparr>m_to = ''ada@example.org'', m_from = ''noreply@emailflow.app'',
         m_subject = ''Bonjour'', m_html = ''<p>Hi</p>'', m_text = ''Hi''\<rparr>]"
proof -
  let ?e = "example_email 1 1 ''en'' ''sent''"
  let ?p = "example_email 2 1 ''fr'' ''pending''"
  let ?st = "example_store [?e]"
  let ?st2 = "example_store [?e, ?p]"
  let ?sv = "example_services (Inr True)"
  have wf: "wf_store ?st" "wf_store ?st2"
    by (simp_all add: wf_store_def example_defs)
  have r: "getScheduledEmail 1 ?st = Some ?e" "getScheduledEmail 1 ?st2 = Some ?e"
    by (simp_all add: getScheduledEmail_def example_store_def example_email_def)
  have s: "e_status ?e \<noteq> ''pending''"
    by (simp add: example_email_def)
  have all: "\<forall>x \<in> snd ` set (scheduledEmails ?st). e_status x \<noteq> ''pending''"
    by (simp add: example_store_def example_email_def)
  have due: "getPendingScheduledEmails 120000 ?st2 = [?p]"
    by (simp add: getPendingScheduledEmails_def example_store_def example_email_def)
  have alone: "calls_of (sendScheduledEmail ?sv 120000 ?p ?st2) =
      [\<lparr>m_to = ''ada@example.org'', m_from = ''noreply@emailflow.app'',
        m_subject = ''Bonjour'', m_html = ''<p>Hi</p>'', m_text = ''Hi''\<rparr>]"
    by (simp add: example_defs language_of_def property_def truthy_def value_or_def
        object_prototype_keys_def str_or_def calls_of_def
        sendScheduledEmail_def sendScheduledEmail_try_def getClient_def getEmailTemplate_def
        subject_of_def content_of_def mail_of_def Let_def updateScheduledEmail_def
        createEmailLog_def incrementTemplateUsage_def)
  note a = processPendingEmails_skips_terminal [OF wf(1) r(1) s, of ?sv 120000]
  note b = processPendingEmails_skips_terminal [OF wf(2) r(2) s, of ?sv 120000]
  have a1: "getScheduledEmail 1 (fst (processPendingEmails ?sv 120000 ?st)) = Some ?e"
    by (rule a [THEN conjunct1])
  have a2: "processPendingEmails ?sv 120000 ?st = (?st, [])"
    using a all by blast
  have b1: "getScheduledEmail 1 (fst (processPendingEmails ?sv 120000 ?st2)) = Some ?e"
    by (rule b [THEN conjunct1])
  have b2: "snd (processPendingEmails ?sv 120000 ?st2) =
      [\<lparr>m_to = ''ada@example.org'', m_from = ''noreply@emailflow.app'',
        m_subject = ''Bonjour'', m_html = ''<p>Hi</p>'', m_text = ''Hi''\<rparr>]"
    using b [THEN conjunct2, THEN conjunct2, THEN conjunct2, THEN conjunct1]
    by (simp add: due alone)
  show ?thesis
    by (intro conjI wf r s a1 a2 due b1 b2)
qed

text \<open>
  C5 as stated fails: \<open>sendScheduledEmail\<close> on a record that is already \<open>sent\<close> calls
  the transport again, appends a log entry, raises the usage count and overwrites the sent
  time of the record.
\<close>

theorem sendScheduledEmail_terminal_counterexample:
  "e_status (example_email 1 1 ''en'' ''sent'') = ''sent'' \<and>
   getScheduledEmail 1 (example_store [example_email 1 1 ''en'' ''sent'']) =
     Some (example_email 1 1 ''en'' ''sent'') \<and>
   emailLogs (example_store [example_email 1 1 ''en'' ''sent'']) = [] \<and>
   calls_of (sendScheduledEmail (example_services (Inr True)) 120000
               (example_email 1 1 ''en'' ''sent'')
               (example_store [example_email 1 1 ''en'' ''sent''])) =
     [\<lparr>m_to = ''ada@example.org'', m_from = ''noreply@emailflow.app'',
       m_subject = ''Hello'', m_html = ''<p>Hi</p>'', m_text = ''Hi''\<rparr>] \<and>
   map fst (emailLogs (store_after
     (sendScheduledEmail (example_services (Inr True)) 120000
        (example_email 1 1 ''en'' ''sent'')
        (example_store [example_email 1 1 ''en'' ''sent''])))) = [1] \<and>
   map_option t_usageCount (getEmailTemplate 1 (store_after
     (sendScheduledEmail (example_services (Inr True)) 120000
        (example_email 1 1 ''en'' ''sent'')
        (example_store [example_email 1 1 ''en'' ''sent''])))) = Some (Some 1) \<and>
   map_option e_sentAt (getScheduledEmail 1 (store_after
     (sendScheduledEmail (example_services (Inr True)) 120000
        (example_email 1 1 ''en'' ''sent'')
        (example_store [example_email 1 1 ''en'' ''sent''])))) = Some (Some 120000)"
  by (simp add: example_defs language_of_def property_def truthy_def value_or_def
      object_prototype_keys_def str_or_def calls_of_def store_after_def
      sendScheduledEmail_def sendScheduledEmail_try_def getClient_def getEmailTemplate_def
      getScheduledEmail_def subject_of_def content_of_def mail_of_def Let_def
      updateScheduledEmail_def createEmailLog_def incrementTemplateUsage_def
      spread_sent num_or_null_def str_or_null_def)

text \<open>
  C6. A dispatch never throws: whatever the personalization or the transport throws is
  caught, and the record becomes \<open>failed\<close> with the message of the error thrown, or with
  \<open>Unknown error\<close> where what was thrown is not an error; a transport that returns false
  ends in \<open>failed\<close> with \<open>Failed to send email via SendGrid\<close>. In a tick the loop runs
  to its end, and every due record ends as it would have ended dispatched alone on the
  store of the start of the tick, whatever became of the records before it: \<open>failed\<close>
  with the message of its failure, or \<open>sent\<close> where the transport returned true.
\<close>

theorem processPendingEmails_absorbs_failures:
  assumes "wf_store st"
  shows "(\<exists>st' calls. sendScheduledEmail sv now e st0 = Inr (st', calls)) \<and>
         (\<exists>st' calls.
            send_each sv now (getPendingScheduledEmails now st) st [] = Inr (st', calls) \<and>
            processPendingEmails sv now st = (st', calls) \<and>
            (\<forall>due \<in> set (getPendingScheduledEmails now st).
               getScheduledEmail (e_id due) st' =
                 getScheduledEmail (e_id due) (store_after (sendScheduledEmail sv now due st)) \<and>
               (\<exists>r. getScheduledEmail (e_id due) st' = Some r \<and>
                  (case getClient (e_clientId due) st of
                     None \<Rightarrow>
                       e_status r = ''failed'' \<and> e_errorMessage r = Some ''Client or template not found''
                   | Some c \<Rightarrow>
                  (case getEmailTemplate (e_templateId due) st of
                     None \<Rightarrow>
                       e_status r = ''failed'' \<and> e_errorMessage r = Some ''Client or template not found''
                   | Some t \<Rightarrow>
                       if truthy (subject_of t (language_of due c)) \<and> truthy (content_of t (language_of due c))
                       then
                         (case personalizeContent sv (subject_of t (language_of due c)) (variables sv c) of
                            Inl err \<Rightarrow>
                              e_status r = ''failed'' \<and>
                              e_errorMessage r =
                                Some (case err of JsError msg \<Rightarrow> msg | Thrown \<Rightarrow> ''Unknown error'')
                          | Inr subject \<Rightarrow>
                         (case personalizeContent sv (content_of t (language_of due c)) (variables sv c) of
                            Inl err \<Rightarrow>
                              e_status r = ''failed'' \<and>
                              e_errorMessage r =
                                Some (case err of JsError msg \<Rightarrow> msg | Thrown \<Rightarrow> ''Unknown error'')
                          | Inr content \<Rightarrow>
                         (case sendEmail sv
                                 \<lparr>m_to = c_email c, m_from = ''noreply@emailflow.app'',
                                  m_subject = subject, m_html = content, m_text = stripTags content\<rparr> of
                            Inl err \<Rightarrow>
                              e_status r = ''failed'' \<and>
                              e_errorMessage r =
                                Some (case err of JsError msg \<Rightarrow> msg | Thrown \<Rightarrow> ''Unknown error'')
                          | Inr ok \<Rightarrow>
                              if ok
                              then e_status r = ''sent'' \<and> e_sentAt r = Some now \<and>
                                   e_personalizedSubject r = Some subject \<and>
                                   e_personalizedContent r = Some content \<and>
                                   e_errorMessage r = e_errorMessage due
                              else e_status r = ''failed'' \<and>
                                   e_errorMessage r = Some ''Failed to send email via SendGrid'')))
                       else e_status r = ''failed'' \<and>
                            e_errorMessage r =
                              Some (''Template content not available for language: '' @ language_of due c))))))"
  (is "?alone \<and> ?tick")
proof
  show ?alone
    using send_run [of sv now e st0] by blast
next
  let ?es = "getPendingScheduledEmails now st"
  define st' where "st' = store_after (send_each sv now ?es st [])"
  define calls where "calls = calls_of (send_each sv now ?es st [])"
  have run: "send_each sv now ?es st [] = Inr (st', calls)"
    unfolding st'_def calls_def by (rule send_each_run)
  have tick: "processPendingEmails sv now st = (st', calls)"
    unfolding st'_def calls_def by (rule processPendingEmails_run)
  have alone: "getScheduledEmail (e_id due) st' =
      getScheduledEmail (e_id due) (store_after (sendScheduledEmail sv now due st))"
    if "due \<in> set ?es" for due
    unfolding st'_def by (rule tick_stored(1) [OF assms that])
  have stored: "getScheduledEmail (e_id due) st = Some due" if "due \<in> set ?es" for due
    by (rule tick_stored(3) [OF assms that])
  show ?tick
  proof (rule exI [of _ "st'"], rule exI [of _ calls], intro conjI ballI)
    show "send_each sv now ?es st [] = Inr (st', calls)" by (rule run)
    show "processPendingEmails sv now st = (st', calls)" by (rule tick)
  next
    fix due
    assume due: "due \<in> set ?es"
    show "getScheduledEmail (e_id due) st' =
        getScheduledEmail (e_id due) (store_after (sendScheduledEmail sv now due st))"
      by (rule alone [OF due])
    from send_outcome [OF stored [OF due], of sv now]
    show "\<exists>r. getScheduledEmail (e_id due) st' = Some r \<and>
        (case getClient (e_clientId due) st of
           None \<Rightarrow>
             e_status r = ''failed'' \<and> e_errorMessage r = Some ''Client or template not found''
         | Some c \<Rightarrow>
        (case getEmailTemplate (e_templateId due) st of
           None \<Rightarrow>
             e_status r = ''failed'' \<and> e_errorMessage r = Some ''Client or template not found''
         | Some t \<Rightarrow>
             if truthy (subject_of t (language_of due c)) \<and> truthy (content_of t (language_of due c))
             then
               (case personalizeContent sv (subject_of t (language_of due c)) (variables sv c) of
                  Inl err \<Rightarrow>
                    e_status r = ''failed'' \<and>
                    e_errorMessage r =
                      Some (case err of JsError msg \<Rightarrow> msg | Thrown \<Rightarrow> ''Unknown error'')
                | Inr subject \<Rightarrow>
               (case personalizeContent sv (content_of t (language_of due c)) (variables sv c) of
                  Inl err \<Rightarrow>
                    e_status r = ''failed'' \<and>
                    e_errorMessage r =
                      Some (case err of JsError msg \<Rightarrow> msg | Thrown \<Rightarrow> ''Unknown error'')
                | Inr content \<Rightarrow>
               (case sendEmail sv
                       \<lparr>m_to = c_email c, m_from = ''noreply@emailflow.app'',
                        m_subject = subject, m_html = content, m_text = stripTags content\<rparr> of
                  Inl err \<Rightarrow>
                    e_status r = ''failed'' \<and>
                    e_errorMessage r =
                      Some (case err of JsError msg \<Rightarrow> msg | Thrown \<Rightarrow> ''Unknown error'')
                | Inr ok \<Rightarrow>
                    if ok
                    then e_status r = ''sent'' \<and> e_sentAt r = Some now \<and>
                         e_personalizedSubject r = Some subject \<and>
                         e_personalizedContent r = Some content \<and>
                         e_errorMessage r = e_errorMessage due
                    else e_status r = ''failed'' \<and>
                         e_errorMessage r = Some ''Failed to send email via SendGrid'')))
             else e_status r = ''failed'' \<and>
                  e_errorMessage r =
                    Some (''Template content not available for language: '' @ language_of due c)))"
      unfolding alone [OF due] .
  qed
qed

text \<open>
  A tick of five due records: the first names a client that does not exist; the mail of the
  second makes the transport throw; the mail of the third is refused; the language of the
  fourth names a member of \<^verbatim>\<open>Object.prototype\<close>, which the personalization cannot
  render; the fifth is in order. Each fails with its own message, and the fifth is sent.
\<close>

theorem processPendingEmails_absorbs_failures_witness:
  "wf_store example_tick_store \<and>
   getPendingScheduledEmails 120000 example_tick_store =
     [example_email 1 7 ''en'' ''pending'',
      example_email 2 2 ''en'' ''pending'',
      example_email 3 3 ''en'' ''pending'',
      example_email 4 1 ''constructor'' ''pending'',
      example_email 5 1 ''en'' ''pending''] \<and>
   (\<exists>st' calls.
      processPendingEmails example_tick_services 120000 example_tick_store = (st', calls) \<and>
      map_option (\<lambda>r. (e_status r, e_errorMessage r)) (getScheduledEmail 1 st') =
        Some (''failed'', Some ''Client or template not found'') \<and>
      map_option (\<lambda>r. (e_status r, e_errorMessage r)) (getScheduledEmail 2 st') =
        Some (''failed'', Some ''mailbox unavailable'') \<and>
      map_option (\<lambda>r. (e_status r, e_errorMessage r)) (getScheduledEmail 3 st') =
        Some (''failed'', Some ''Failed to send email via SendGrid'') \<and>
      map_option (\<lambda>r. (e_status r, e_errorMessage r)) (getScheduledEmail 4 st') =
        Some (''failed'', Some ''content.replace is not a function'') \<and>
      map_option (\<lambda>r. (e_status r, e_errorMessage r)) (getScheduledEmail 5 st') =
        Some (''sent'', None))"
proof -
  let ?e1 = "example_email 1 7 ''en'' ''pending''"
  have wf: "wf_store example_tick_store"
    by (simp add: wf_store_def example_tick_defs)
  have due: "getPendingScheduledEmails 120000 example_tick_store =
      [example_email 1 7 ''en'' ''pending'',
       example_email 2 2 ''en'' ''pending'',
       example_email 3 3 ''en'' ''pending'',
       example_email 4 1 ''constructor'' ''pending'',
       example_email 5 1 ''en'' ''pending'']"
    by (simp add: getPendingScheduledEmails_def example_tick_store_def example_store_def
        example_email_def)
  note t = processPendingEmails_absorbs_failures
    [OF wf, of example_tick_services 120000 ?e1 example_tick_store, THEN conjunct2, unfolded due]
  have tick: "\<exists>st' calls.
      processPendingEmails example_tick_services 120000 example_tick_store = (st', calls) \<and>
      map_option (\<lambda>r. (e_status r, e_errorMessage r)) (getScheduledEmail 1 st') =
        Some (''failed'', Some ''Client or template not found'') \<and>
      map_option (\<lambda>r. (e_status r, e_errorMessage r)) (getScheduledEmail 2 st') =
        Some (''failed'', Some ''mailbox unavailable'') \<and>
      map_option (\<lambda>r. (e_status r, e_errorMessage r)) (getScheduledEmail 3 st') =
        Some (''failed'', Some ''Failed to send email via SendGrid'') \<and>
      map_option (\<lambda>r. (e_status r, e_errorMessage r)) (getScheduledEmail 4 st') =
        Some (''failed'', Some ''content.replace is not a function'') \<and>
      map_option (\<lambda>r. (e_status r, e_errorMessage r)) (getScheduledEmail 5 st') =
        Some (''sent'', None)"
    using t
    by (auto simp: example_tick_defs getClient_def getEmailTemplate_def language_of_def
        str_or_def subject_of_def content_of_def value_or_def property_def truthy_def
        object_prototype_keys_def)
  show ?thesis
    by (intro conjI wf due tick)
qed

section \<open>Claims about the due set, the variables and new records\<close>

text \<open>
  C8. For every store and every \<open>now\<close>, the due-set query returns exactly the records
  whose status is \<open>pending\<close> and whose due time is at or before \<open>now\<close>, in ascending
  order of due time; records with the same due time keep the order in which the store
  holds them, which is the order of their creation (\<open>createScheduledEmail_appends\<close>,
  \<open>updateScheduledEmail_keys\<close>): in a store built through its own operations, of two
  records due at the same time the one with the smaller id, created first, comes first.
\<close>

theorem getPendingScheduledEmails_due_sorted_stable:
  "set (getPendingScheduledEmails now st) =
     {e \<in> snd ` set (scheduledEmails st). e_status e = ''pending'' \<and> e_scheduledFor e \<le> now} \<and>
   sorted (map e_scheduledFor (getPendingScheduledEmails now st)) \<and>
   (\<forall>due. filter (\<lambda>e. e_scheduledFor e = due) (getPendingScheduledEmails now st) =
           filter (\<lambda>e. e_scheduledFor e = due)
             (filter (\<lambda>e. e_status e = ''pending'' \<and> e_scheduledFor e \<le> now)
                (map snd (scheduledEmails st)))) \<and>
   (wf_store st \<longrightarrow> sorted_wrt due_before (getPendingScheduledEmails now st))"
proof (intro conjI allI impI)
  show "set (getPendingScheduledEmails now st) =
     {e \<in> snd ` set (scheduledEmails st). e_status e = ''pending'' \<and> e_scheduledFor e \<le> now}"
    by (auto simp: getPendingScheduledEmails_def)
next
  show "sorted (map e_scheduledFor (getPendingScheduledEmails now st))"
    by (simp add: getPendingScheduledEmails_def)
next
  fix due
  show "filter (\<lambda>e. e_scheduledFor e = due) (getPendingScheduledEmails now st) =
           filter (\<lambda>e. e_scheduledFor e = due)
             (filter (\<lambda>e. e_status e = ''pending'' \<and> e_scheduledFor e \<le> now)
                (map snd (scheduledEmails st)))"
    unfolding getPendingScheduledEmails_def by (rule sort_key_stable)
next
  assume "wf_store st"
  then show "sorted_wrt due_before (getPendingScheduledEmails now st)"
    by (rule pending_order)
qed

text \<open>
  Three records in the store: the first pending and due late, the second and the third
  pending and due at the same earlier time, and one more that is already sent. The query
  gives the second, the third and the first.
\<close>

theorem getPendingScheduledEmails_due_sorted_stable_witness:
  "wf_store
     (example_store
        [(example_email 1 1 ''en'' ''pending'')\<lparr>e_scheduledFor := 90000\<rparr>,
         example_email 2 1 ''en'' ''pending'',
         example_email 3 1 ''en'' ''pending'',
         example_email 4 1 ''en'' ''sent'']
      \<lparr>currentScheduledEmailId := 5\<rparr>) \<and>
   getPendingScheduledEmails 120000
     (example_store
        [(example_email 1 1 ''en'' ''pending'')\<lparr>e_scheduledFor := 90000\<rparr>,
         example_email 2 1 ''en'' ''pending'',
         example_email 3 1 ''en'' ''pending'',
         example_email 4 1 ''en'' ''sent'']
      \<lparr>currentScheduledEmailId := 5\<rparr>) =
     [example_email 2 1 ''en'' ''pending'',
      example_email 3 1 ''en'' ''pending'',
      (example_email 1 1 ''en'' ''pending'')\<lparr>e_scheduledFor := 90000\<rparr>] \<and>
   sorted_wrt due_before
     (getPendingScheduledEmails 120000
        (example_store
           [(example_email 1 1 ''en'' ''pending'')\<lparr>e_scheduledFor := 90000\<rparr>,
            example_email 2 1 ''en'' ''pending'',
            example_email 3 1 ''en'' ''pending'',
            example_email 4 1 ''en'' ''sent'']
         \<lparr>currentScheduledEmailId := 5\<rparr>))"
proof -
  let ?st = "example_store
        [(example_email 1 1 ''en'' ''pending'')\<lparr>e_scheduledFor := 90000\<rparr>,
         example_email 2 1 ''en'' ''pending'',
         example_email 3 1 ''en'' ''pending'',
         example_email 4 1 ''en'' ''sent'']
      \<lparr>currentScheduledEmailId := 5\<rparr>"
  have wf: "wf_store ?st"
    by (simp add: wf_store_def example_defs)
  have due: "getPendingScheduledEmails 120000 ?st =
     [example_email 2 1 ''en'' ''pending'',
      example_email 3 1 ''en'' ''pending'',
      (example_email 1 1 ''en'' ''pending'')\<lparr>e_scheduledFor := 90000\<rparr>]"
    by (simp add: getPendingScheduledEmails_def example_store_def example_email_def)
  from getPendingScheduledEmails_due_sorted_stable [of 120000 ?st] wf
  have "sorted_wrt due_before (getPendingScheduledEmails 120000 ?st)" by blast
  with wf due show ?thesis by simp
qed

text \<open>
  C9. The variable bag maps \<open>client_name\<close> to the client's name, \<open>company\<close> to the
  client's company or the empty string, \<open>last_interaction\<close> to the formatted date or
  \<open>N/A\<close>, and every custom field to its value; a custom field named like a built-in
  takes the built-in's place.
\<close>

theorem variables_builtins_then_custom_fields:
  "variables sv client k =
     (case (case c_customFields client of None \<Rightarrow> None | Some custom \<Rightarrow> custom k) of
        Some v \<Rightarrow> Some v
      | None \<Rightarrow>
          if k = ''client_name'' then Some (c_name client)
          else if k = ''company''
            then Some (case c_company client of None \<Rightarrow> '''' | Some company \<Rightarrow> company)
          else if k = ''last_interaction''
            then Some (case c_lastInteraction client of
                         None \<Rightarrow> ''N/A''
                       | Some d \<Rightarrow> toLocaleDateString sv d)
          else None)"
proof -
  define base :: StringRecord where
    "base = [''client_name'' \<mapsto> c_name client,
             ''company'' \<mapsto> str_or (c_company client) '''',
             ''last_interaction'' \<mapsto>
               (case c_lastInteraction client of
                  Some d \<Rightarrow> toLocaleDateString sv d
                | None \<Rightarrow> ''N/A'')]"
  define fields :: StringRecord where
    "fields = (case c_customFields client of None \<Rightarrow> Map.empty | Some c \<Rightarrow> c)"
  have v: "variables sv client k = (case fields k of None \<Rightarrow> base k | Some v \<Rightarrow> Some v)"
    unfolding variables_def map_add_def base_def fields_def by (rule refl)
  have company: "str_or (c_company client) '''' =
      (case c_company client of None \<Rightarrow> '''' | Some company \<Rightarrow> company)"
    by (simp add: str_or_def split: option.split)
  have b: "base k =
     (if k = ''client_name'' then Some (c_name client)
      else if k = ''company''
        then Some (case c_company client of None \<Rightarrow> '''' | Some company \<Rightarrow> company)
      else if k = ''last_interaction''
        then Some (case c_lastInteraction client of
                     None \<Rightarrow> ''N/A''
                   | Some d \<Rightarrow> toLocaleDateString sv d)
      else None)"
  proof -
    consider "k = ''client_name''" | "k = ''company''" | "k = ''last_interaction''"
      | "k \<noteq> ''client_name'' \<and> k \<noteq> ''company'' \<and> k \<noteq> ''last_interaction''"
      by blast
    then show ?thesis
      by cases (simp_all add: base_def company)
  qed
  have c: "(case c_customFields client of None \<Rightarrow> None | Some custom \<Rightarrow> custom k) = fields k"
    by (simp add: fields_def split: option.split)
  show ?thesis
    unfolding v b c by (simp split: option.split)
qed

text \<open>
  C10. Whatever the insert input holds, also a status or an error message, the record that
  \<open>createScheduledEmail\<close> returns and stores is \<open>pending\<close>, with no sent time, no
  personalized subject or content and no error message.
\<close>

theorem createScheduledEmail_always_pending:
  "e_status (fst (createScheduledEmail now insertEmail st)) = ''pending'' \<and>
   e_sentAt (fst (createScheduledEmail now insertEmail st)) = None \<and>
   e_personalizedSubject (fst (createScheduledEmail now insertEmail st)) = None \<and>
   e_personalizedContent (fst (createScheduledEmail now insertEmail st)) = None \<and>
   e_errorMessage (fst (createScheduledEmail now insertEmail st)) = None \<and>
   getScheduledEmail (e_id (fst (createScheduledEmail now insertEmail st)))
     (snd (createScheduledEmail now insertEmail st)) =
     Some (fst (createScheduledEmail now insertEmail st))"
  by (simp add: createScheduledEmail_def getScheduledEmail_def Let_def update_conv')

end
